theory Spec2Isabelle
  imports Complex_Main
begin

section \<open>Data model (types.ts)\<close>

text \<open>
  JavaScript numbers are modelled as exact rationals where the source computes with
  fractions (slider values, opacities, scale factors) and as integers where the source
  holds integers (normalised region bounds, millisecond timestamps, pixel sizes).
\<close>

record Adjustments =
  brightness :: rat
  contrast :: rat
  saturation :: rat
  blur :: rat
  sepia :: rat
  grayscale :: rat
  warmth :: rat
  watermark :: string
  overlayImage :: "string option"
  overlayX :: rat
  overlayY :: rat
  overlayScale :: rat
  overlayOpacity :: rat
  privacyBlur :: bool

record BoundingBox =
  ymin :: int
  xmin :: int
  ymax :: int
  xmax :: int

text \<open>
  \<open>privacyRegions?: BoundingBox[]\<close>: the optional field is \<open>None\<close> while it is
  undefined (never detected), \<open>Some []\<close> after a detection that found nothing.
\<close>

record ImageFile =
  imgId :: string
  originalUrl :: string
  previewUrl :: string
  name :: string
  mimeType :: string
  adjustments :: Adjustments
  privacyRegions :: "BoundingBox list option"

section \<open>App.tsx: adjustment updates and candidate selection\<close>

text \<open>
  \<open>updateAdjustments\<close>: \<open>prevImages.map(img => selectedImageIds.has(img.id) ?
  { ...img, adjustments: newAdj } : img)\<close>.
\<close>

definition updateAdjustments :: "string set \<Rightarrow> Adjustments \<Rightarrow> ImageFile list \<Rightarrow> ImageFile list" where
  "updateAdjustments selectedImageIds newAdj prevImages =
     map (\<lambda>img. if imgId img \<in> selectedImageIds then img\<lparr>adjustments := newAdj\<rparr> else img) prevImages"

text \<open>
  \<open>needsDetection\<close> of \<open>checkPrivacy\<close>: \<open>!img.privacyRegions\<close> holds for undefined
  or null only, an empty array is truthy.
\<close>

definition needsDetection :: "string set \<Rightarrow> ImageFile list \<Rightarrow> ImageFile list" where
  "needsDetection selectedImageIds images =
     filter (\<lambda>img. imgId img \<in> selectedImageIds \<and> privacyBlur (adjustments img)
                    \<and> privacyRegions img = None) images"

text \<open>
  \<open>prio = needsDetection.find(img => img.id === viewImageId)\<close> and
  \<open>queue = prio ? [prio, ...needsDetection.filter(i => i.id !== viewImageId)] : needsDetection\<close>.
\<close>

definition detectionQueue :: "string option \<Rightarrow> ImageFile list \<Rightarrow> ImageFile list" where
  "detectionQueue viewImageId nd =
     (case find (\<lambda>img. Some (imgId img) = viewImageId) nd of
        Some prio \<Rightarrow> prio # filter (\<lambda>i. Some (imgId i) \<noteq> viewImageId) nd
      | None \<Rightarrow> nd)"

text \<open>
  The functional state update of the detection loop:
  \<open>prev.map(i => i.id === img.id ? { ...i, privacyRegions: boxes } : i)\<close>.
\<close>

definition storeRegions :: "string \<Rightarrow> BoundingBox list \<Rightarrow> ImageFile list \<Rightarrow> ImageFile list" where
  "storeRegions ident boxes prev =
     map (\<lambda>i. if imgId i = ident then i\<lparr>privacyRegions := Some boxes\<rparr> else i) prev"

section \<open>geminiService.ts: errors, retry with backoff, privacy detection\<close>

text \<open>
  A thrown value is the service's own \<open>GeminiQuotaError\<close> or anything else; of the
  latter only the properties the source inspects are kept (\<open>None\<close>: the property is
  missing or has another type than the one compared with).
\<close>

record JsError =
  status :: "int option"
  code :: "int option"
  message :: "string option"
  errName :: "string option"

datatype thrown = GeminiQuotaError | Thrown JsError

fun thrownStatus :: "thrown \<Rightarrow> int option" where
  "thrownStatus GeminiQuotaError = None"
| "thrownStatus (Thrown e) = status e"

fun thrownCode :: "thrown \<Rightarrow> int option" where
  "thrownCode GeminiQuotaError = None"
| "thrownCode (Thrown e) = code e"

fun thrownMessage :: "thrown \<Rightarrow> string option" where
  "thrownMessage GeminiQuotaError = Some ''Cota da API Gemini excedida (429).''"
| "thrownMessage (Thrown e) = message e"

fun thrownName :: "thrown \<Rightarrow> string option" where
  "thrownName GeminiQuotaError = Some ''GeminiQuotaError''"
| "thrownName (Thrown e) = errName e"

text \<open>\<open>s.includes(t)\<close>: \<open>t\<close> occurs in \<open>s\<close> as a contiguous run of characters.\<close>

fun strIncludes :: "string \<Rightarrow> string \<Rightarrow> bool" where
  "strIncludes [] t = (t = [])"
| "strIncludes (c # s) t = (take (length t) (c # s) = t \<or> strIncludes s t)"

text \<open>\<open>error?.message && error.message.includes(t)\<close>: the empty message is falsy.\<close>

definition messageIncludes :: "thrown \<Rightarrow> string \<Rightarrow> bool" where
  "messageIncludes error t =
     (case thrownMessage error of None \<Rightarrow> False | Some m \<Rightarrow> m \<noteq> [] \<and> strIncludes m t)"

definition isRateLimit :: "thrown \<Rightarrow> bool" where
  "isRateLimit error =
     (thrownStatus error = Some 429 \<or> thrownCode error = Some 429 \<or>
      messageIncludes error ''429'' \<or> messageIncludes error ''Quota'')"

text \<open>\<open>e instanceof GeminiQuotaError || e.name === 'GeminiQuotaError'\<close>\<close>

definition isGeminiQuotaError :: "thrown \<Rightarrow> bool" where
  "isGeminiQuotaError e = (e = GeminiQuotaError \<or> thrownName e = Some ''GeminiQuotaError'')"

text \<open>
  The world outside the program: the clock read by \<open>Date.now()\<close> (milliseconds), the
  state \<open>'r\<close> of everything remote, and the record of what the program did to it, in
  order: a call of the wrapped remote operation, a timer awaited, a source fetched.
  Time passes in timers only; \<open>setTimeout\<close> treats a negative delay as zero.
\<close>

datatype event = Call | Wait int | Fetch string

record 'r world =
  clock :: int
  events :: "event list"
  remote :: 'r

text \<open>The sources fetched, in order, according to a record of events.\<close>

definition fetched :: "event list \<Rightarrow> string list" where
  "fetched es = concat (map (\<lambda>e. case e of Fetch u \<Rightarrow> [u] | _ \<Rightarrow> []) es)"

definition wait :: "int \<Rightarrow> 'r world \<Rightarrow> 'r world" where
  "wait ms w = w\<lparr>clock := clock w + max 0 ms, events := events w @ [Wait ms]\<rparr>"

definition invoke :: "('r \<Rightarrow> 'a \<times> 'r) \<Rightarrow> event \<Rightarrow> 'r world \<Rightarrow> 'a \<times> 'r world" where
  "invoke f ev w =
     (case f (remote w) of (res, r') \<Rightarrow> (res, w\<lparr>events := events w @ [ev], remote := r'\<rparr>))"

text \<open>
  \<open>retryWithBackoff(fn, retries = 2, delay = 2000)\<close>. \<open>Inl\<close> is a rejection of the
  returned promise, \<open>Inr\<close> its value.
\<close>

function retryWithBackoff ::
  "('r \<Rightarrow> (thrown + 'a) \<times> 'r) \<Rightarrow> int \<Rightarrow> int \<Rightarrow> 'r world \<Rightarrow> (thrown + 'a) \<times> 'r world" where
  "retryWithBackoff fn retries delay w =
     (case invoke fn Call w of
        (Inr v, w') \<Rightarrow> (Inr v, w')
      | (Inl error, w') \<Rightarrow>
          if isRateLimit error then
            if retries > 0 then retryWithBackoff fn (retries - 1) (delay * 2) (wait delay w')
            else (Inl GeminiQuotaError, w')
          else (Inl error, w'))"
  by pat_completeness auto
termination
  by (relation "measure (\<lambda>(fn, retries, delay, w). nat retries)") auto

declare retryWithBackoff.simps [simp del]

text \<open>
  What a detection run is given: whether \<open>process.env.API_KEY\<close> is set, the chain
  \<open>fetch(url)\<close>, \<open>res.blob()\<close>, \<open>blobToBase64(blob)\<close>, and the closure that
  \<open>detectPrivacyObjects\<close> hands to \<open>retryWithBackoff\<close> (the request to the model and
  the parsing of its answer into boxes; any of it may throw).
\<close>

record 'r env =
  apiKey :: bool
  fetchBase64 :: "string \<Rightarrow> 'r \<Rightarrow> (thrown + string) \<times> 'r"
  detectRequest :: "string \<Rightarrow> 'r \<Rightarrow> (thrown + BoundingBox list) \<times> 'r"

text \<open>
  \<open>detectPrivacyObjects\<close>: \<open>Inr None\<close> is the returned \<open>null\<close>, \<open>Inr (Some boxes)\<close> a
  returned array, \<open>Inl\<close> the rethrown quota error.
\<close>

definition detectPrivacyObjects ::
  "'r env \<Rightarrow> string \<Rightarrow> 'r world \<Rightarrow> (thrown + BoundingBox list option) \<times> 'r world" where
  "detectPrivacyObjects env base64Image w =
     (if \<not> apiKey env then (Inr (Some []), w)
      else case retryWithBackoff (detectRequest env base64Image) 2 2000 w of
             (Inr boxes, w') \<Rightarrow> (Inr (Some boxes), w')
           | (Inl error, w') \<Rightarrow>
               if isGeminiQuotaError error then (Inl error, w') else (Inr None, w'))"

section \<open>App.tsx: the privacy detection run\<close>

record AppState =
  images :: "ImageFile list"
  viewImageId :: "string option"
  selectedImageIds :: "string set"
  quotaCooldown :: int
  processingMsg :: string
  isDetectingPrivacy :: bool

text \<open>The body of the loop's \<open>try\<close> up to the value of \<open>boxes\<close>.\<close>

definition detectFor ::
  "'r env \<Rightarrow> ImageFile \<Rightarrow> 'r world \<Rightarrow> (thrown + BoundingBox list option) \<times> 'r world" where
  "detectFor env img w =
     (case invoke (fetchBase64 env (originalUrl img)) (Fetch (originalUrl img)) w of
        (Inl e, w') \<Rightarrow> (Inl e, w')
      | (Inr base64, w') \<Rightarrow> detectPrivacyObjects env base64 w')"

text \<open>
  \<open>for (const img of queue)\<close>. The second argument is the \<open>quotaCooldown\<close> that the
  effect's closure captured when it was created; the state's own \<open>quotaCooldown\<close> is
  what \<open>setQuotaCooldown\<close> writes. The last component of the result tells whether the
  loop was left by \<open>break\<close>.
\<close>

fun detectLoop ::
  "'r env \<Rightarrow> int \<Rightarrow> ImageFile list \<Rightarrow> AppState \<Rightarrow> 'r world \<Rightarrow> AppState \<times> 'r world \<times> bool" where
  "detectLoop env captured [] a w = (a, w, False)"
| "detectLoop env captured (img # queue) a w =
     (if clock w < captured then (a, w, True)
      else case detectFor env img w of
        (Inr boxes, w') \<Rightarrow>
          detectLoop env captured queue
            (case boxes of
               None \<Rightarrow> a
             | Some bs \<Rightarrow> a\<lparr>images := storeRegions (imgId img) bs (images a)\<rparr>)
            (wait 4000 w')
      | (Inl e, w') \<Rightarrow>
          if isGeminiQuotaError e then
            (a\<lparr>quotaCooldown := clock w' + 60 * 1000,
               processingMsg := ''Cota de IA atingida. Pausando por 60s...''\<rparr>, w', True)
          else detectLoop env captured queue a w')"

definition checkPrivacy :: "'r env \<Rightarrow> AppState \<Rightarrow> 'r world \<Rightarrow> AppState \<times> 'r world" where
  "checkPrivacy env a w =
     (if isDetectingPrivacy a then (a, w)
      else if clock w < quotaCooldown a then (a, w)
      else let nd = needsDetection (selectedImageIds a) (images a) in
        if length nd = 0 then (a, w)
        else case detectLoop env (quotaCooldown a) (detectionQueue (viewImageId a) nd)
                    (a\<lparr>isDetectingPrivacy := True\<rparr>) w of
               (a', w', _) \<Rightarrow> (a'\<lparr>isDetectingPrivacy := False\<rparr>, w'))"

section \<open>App.tsx: the quota cooldown\<close>

text \<open>
  \<open>now\<close> is \<open>Date.now()\<close> and \<open>until\<close> the state variable \<open>quotaCooldown\<close>,
  both in milliseconds.
\<close>

definition isQuotaExhausted :: "int \<Rightarrow> int \<Rightarrow> bool" where
  "isQuotaExhausted now until = (now < until)"

definition cooldownRemaining :: "int \<Rightarrow> int \<Rightarrow> int" where
  "cooldownRemaining now until = \<lceil>(of_int (until - now) :: rat) / 1000\<rceil>"

text \<open>
  One render of \<open>App\<close> computes the two constants \<open>isQuotaExhausted\<close> and
  \<open>cooldownRemaining\<close> with a clock read each, the guard first. In what follows
  \<open>nowA\<close> is the read of the guard and \<open>nowB\<close> the later read of the value, so that the
  constants of a render are \<open>isQuotaExhausted nowA until\<close> and
  \<open>cooldownRemaining nowB until\<close>.

  The three places that show the value take the two constants of the last render: the
  header badge \<open>{isQuotaExhausted && <span>{cooldownRemaining}s</span>}\<close> and the early
  returns of \<open>handleAutoEnhance\<close> and \<open>handleRemoveBackground\<close>, which close over the
  constants and put the value into the status message. \<open>None\<close>: nothing is shown.
\<close>

definition cooldownBadge :: "bool \<Rightarrow> int \<Rightarrow> int option" where
  "cooldownBadge exhausted remaining = (if exhausted then Some remaining else None)"

definition quotaWaitNotice :: "bool \<Rightarrow> int \<Rightarrow> int option" where
  "quotaWaitNotice exhausted remaining = (if exhausted then Some remaining else None)"

text \<open>
  One firing of the interval of the reset effect, which exists while \<open>quotaCooldown > 0\<close>;
  the result is the new \<open>quotaCooldown\<close>. Writing 0 changes the state, and the component
  renders again; \<open>setQuotaCooldown(prev => prev)\<close> leaves the state as it is.
\<close>

definition cooldownTick :: "int \<Rightarrow> int \<Rightarrow> int" where
  "cooldownTick now until =
     (if until > 0 then (if now > until then 0 else until)
      else until)"

section \<open>imageUtils.ts: compositing on a canvas\<close>

text \<open>
  A canvas is modelled by what was painted on it, in order, each paint with the drawing
  state of the context at that moment. Pixel values are not computed: two canvases are
  equal when the same paints were made in the same order.
\<close>

datatype cssFilter =
  Brightness rat | Contrast rat | Saturate rat | Blur rat | Sepia rat | Grayscale rat

definition generateCssFilterString :: "Adjustments \<Rightarrow> cssFilter list" where
  "generateCssFilterString adj =
     [Brightness (brightness adj), Contrast (contrast adj), Saturate (saturation adj),
      Blur (blur adj), Sepia (sepia adj), Grayscale (grayscale adj)]"

text \<open>
  \<open>Sampled x y\<close> is \<open>rgb(r,g,b)\<close> of the pixel that \<open>getImageData\<close> read at canvas
  position \<open>(x, y)\<close>; \<open>Named\<close> is a colour of the style sheet.
\<close>

datatype colour = Rgba int int int rat | Sampled int int | Named string

datatype compositeOperation =
  SourceOver | Multiply | Screen | Overlay | Darken | Lighten | HardLight | SoftLight

datatype cssFont = CssFont bool rat string

text \<open>The drawing state of a 2D context; \<open>ctxFilter = []\<close> is \<open>filter = 'none'\<close>.\<close>

record drawState =
  ctxFilter :: "cssFilter list"
  fillStyle :: colour
  globalAlpha :: rat
  globalCompositeOperation :: compositeOperation
  font :: cssFont
  textAlign :: string
  textBaseline :: string
  shadowColor :: colour
  shadowBlur :: rat

datatype imageSource = FromUrl string | FromCanvas "paint list"
and paint =
    DrawImage drawState imageSource rat rat
  | DrawImageSized drawState imageSource rat rat rat rat
  | FillRect drawState rat rat rat rat
  | FillText drawState string rat rat

record canvas =
  width :: int
  height :: int
  ctx :: drawState
  surface :: "paint list"

text \<open>The state of a context that \<open>getContext('2d')\<close> has just returned.\<close>

definition freshState :: drawState where
  "freshState =
     \<lparr>ctxFilter = [], fillStyle = Rgba 0 0 0 1, globalAlpha = 1,
      globalCompositeOperation = SourceOver, font = CssFont False 10 ''sans-serif'',
      textAlign = ''start'', textBaseline = ''alphabetic'',
      shadowColor = Rgba 0 0 0 0, shadowBlur = 0\<rparr>"

text \<open>
  What the browser decides: whether an image loads (and its size), whether the two
  canvases get a context, whether \<open>getImageData\<close> throws on a rectangle, whether
  \<open>toBlob\<close> delivers a blob for a canvas of a given size.
\<close>

record browser =
  loadImage :: "string \<Rightarrow> (int \<times> int) option"
  context2d :: bool
  filterContext2d :: bool
  getImageDataThrows :: "int \<Rightarrow> int \<Rightarrow> int \<Rightarrow> int \<Rightarrow> bool"
  encodable :: "int \<Rightarrow> int \<Rightarrow> bool"

definition painted :: "(drawState \<Rightarrow> paint) \<Rightarrow> canvas \<Rightarrow> canvas" where
  "painted p c = c\<lparr>surface := surface c @ [p (ctx c)]\<rparr>"

text \<open>
  \<open>for (let p = 0; p < limit; p += blockSize)\<close>: the values \<open>p\<close> takes. The source's
  block size is at least 10; the test \<open>0 < blockSize\<close> is here for termination only.
\<close>

function blockOrigins :: "int \<Rightarrow> int \<Rightarrow> int \<Rightarrow> int list" where
  "blockOrigins p limit blockSize =
     (if p < limit \<and> 0 < blockSize then p # blockOrigins (p + blockSize) limit blockSize
      else [])"
  by pat_completeness auto
termination
  by (relation "measure (\<lambda>(p, limit, blockSize). nat (limit - p))") auto

declare blockOrigins.simps [simp del]

text \<open>
  The body of \<open>privacyRegions.forEach\<close>. The products \<open>(box.ymin / 1000) * canvas.height\<close>
  are taken exactly, so that \<open>Math.floor\<close> is \<open>div\<close>. A region without extent is left
  out by the early \<open>return\<close>; a throwing \<open>getImageData\<close> is caught and logged.
\<close>

definition blurRegion :: "browser \<Rightarrow> int \<Rightarrow> BoundingBox \<Rightarrow> canvas \<Rightarrow> canvas" where
  "blurRegion br blockSize box c =
     (let y = (ymin box * height c) div 1000;
          x = (xmin box * width c) div 1000;
          h = ((ymax box - ymin box) * height c) div 1000;
          w = ((xmax box - xmin box) * width c) div 1000
      in if w \<le> 0 \<or> h \<le> 0 then c
         else if getImageDataThrows br x y w h then c
         else fold (\<lambda>(px, py) c'.
                 painted (\<lambda>s. FillRect s (of_int (x + px)) (of_int (y + py))
                                  (of_int blockSize) (of_int blockSize))
                   (c'\<lparr>ctx := (ctx c')\<lparr>fillStyle := Sampled (x + px) (y + py)\<rparr>\<rparr>))
               (concat (map (\<lambda>py. map (\<lambda>px. (px, py)) (blockOrigins 0 w blockSize))
                            (blockOrigins 0 h blockSize)))
               c)"

definition stagePrivacy :: "browser \<Rightarrow> Adjustments \<Rightarrow> BoundingBox list \<Rightarrow> canvas \<Rightarrow> canvas" where
  "stagePrivacy br adj regions c =
     (if privacyBlur adj \<and> length regions > 0
      then fold (blurRegion br (max 10 ((width c * 2) div 100))) regions c
      else c)"

text \<open>
  The filter canvas receives the canvas under the filter string; the canvas is cleared
  and receives the filter canvas.
\<close>

definition stageFilters :: "browser \<Rightarrow> Adjustments \<Rightarrow> canvas \<Rightarrow> canvas" where
  "stageFilters br adj c =
     (if filterContext2d br then
        let filterCanvas =
              painted (\<lambda>s. DrawImage s (FromCanvas (surface c)) 0 0)
                \<lparr>width = width c, height = height c,
                 ctx = freshState\<lparr>ctxFilter := generateCssFilterString adj\<rparr>, surface = []\<rparr>
        in painted (\<lambda>s. DrawImage s (FromCanvas (surface filterCanvas)) 0 0)
             (c\<lparr>surface := []\<rparr>)
      else c)"

definition stageWarmth :: "Adjustments \<Rightarrow> canvas \<Rightarrow> canvas" where
  "stageWarmth adj c =
     (if warmth adj > 0 then
        painted (\<lambda>s. FillRect s 0 0 (of_int (width c)) (of_int (height c)))
          (c\<lparr>ctx := (ctx c)\<lparr>ctxFilter := [], fillStyle := Rgba 255 160 0 (warmth adj / 500)\<rparr>\<rparr>)
      else c)"

text \<open>\<open>v || d\<close> on numbers: zero is falsy.\<close>

definition orDefault :: "rat \<Rightarrow> rat \<Rightarrow> rat" where
  "orDefault v d = (if v = 0 then d else v)"

text \<open>The setter of \<open>globalAlpha\<close> ignores a value outside the unit interval.\<close>

definition setGlobalAlpha :: "rat \<Rightarrow> canvas \<Rightarrow> canvas" where
  "setGlobalAlpha v c = (if 0 \<le> v \<and> v \<le> 1 then c\<lparr>ctx := (ctx c)\<lparr>globalAlpha := v\<rparr>\<rparr> else c)"

text \<open>
  The overlay image: an image that fails to load, or has no extent, gives \<open>drawImage\<close>
  a size that is not a finite positive number, and nothing is painted.
\<close>

definition stageOverlay :: "browser \<Rightarrow> Adjustments \<Rightarrow> canvas \<Rightarrow> canvas" where
  "stageOverlay br adj c =
     (case overlayImage adj of
        None \<Rightarrow> c
      | Some src \<Rightarrow>
          if src = [] then c
          else
            let c1 = c\<lparr>ctx := (ctx c)\<lparr>ctxFilter := []\<rparr>\<rparr> in
            (case loadImage br src of
               None \<Rightarrow> setGlobalAlpha 1 (setGlobalAlpha (overlayOpacity adj) c1)
             | Some (ow, oh) \<Rightarrow>
                 let scale = orDefault (overlayScale adj) (2 / 10);
                     aspect = of_int ow / of_int oh;
                     drawWidth = of_int (width c) * scale;
                     drawHeight = drawWidth / aspect;
                     posX = of_int (width c) * orDefault (overlayX adj) (5 / 10) - drawWidth / 2;
                     posY = of_int (height c) * orDefault (overlayY adj) (5 / 10) - drawHeight / 2;
                     c2 = setGlobalAlpha (overlayOpacity adj) c1
                 in setGlobalAlpha 1
                      (if ow \<le> 0 \<or> oh \<le> 0 then c2
                       else painted (\<lambda>s. DrawImageSized s (FromUrl src) posX posY drawWidth drawHeight) c2)))"

definition stageWatermark :: "Adjustments \<Rightarrow> canvas \<Rightarrow> canvas" where
  "stageWatermark adj c =
     (if watermark adj \<noteq> [] then
        let fontSize = max 20 (of_int (width c) * (5 / 100));
            padding = of_int (width c) * (2 / 100)
        in painted (\<lambda>s. FillText s (watermark adj)
                            (of_int (width c) - padding) (of_int (height c) - padding))
             (c\<lparr>ctx := (ctx c)\<lparr>ctxFilter := [], font := CssFont True fontSize ''sans-serif'',
                               fillStyle := Rgba 255 255 255 (7 / 10), textAlign := ''right'',
                               textBaseline := ''bottom'', shadowColor := Rgba 0 0 0 (5 / 10),
                               shadowBlur := 4\<rparr>\<rparr>)
      else c)"

record blob =
  raster :: "paint list"
  rasterWidth :: int
  rasterHeight :: int
  blobType :: string
  blobQuality :: rat

definition plainError :: "string \<Rightarrow> thrown" where
  "plainError msg = Thrown \<lparr>status = None, code = None, message = Some msg, errName = Some ''Error''\<rparr>"

text \<open>What \<open>img.onerror\<close> rejects with is an event, not an error object.\<close>

definition errorEvent :: thrown where
  "errorEvent = Thrown \<lparr>status = None, code = None, message = None, errName = None\<rparr>"

text \<open>
  The canvas of \<open>processImageOnCanvas\<close> after its stages 1 to 3 (the image drawn,
  the regions pixelated, the filters applied), and before \<open>toBlob\<close> (then the warmth
  fill, the overlay image and the text watermark).
\<close>

definition tonedBase :: "browser \<Rightarrow> string \<Rightarrow> Adjustments \<Rightarrow> BoundingBox list \<Rightarrow> int \<Rightarrow> int \<Rightarrow> canvas" where
  "tonedBase br imageUrl adj regions iw ih =
     stageFilters br adj
       (stagePrivacy br adj regions
          (painted (\<lambda>s. DrawImage s (FromUrl imageUrl) 0 0)
             \<lparr>width = iw, height = ih, ctx = freshState, surface = []\<rparr>))"

definition composite :: "browser \<Rightarrow> string \<Rightarrow> Adjustments \<Rightarrow> BoundingBox list \<Rightarrow> int \<Rightarrow> int \<Rightarrow> canvas" where
  "composite br imageUrl adj regions iw ih =
     stageWatermark adj
       (stageOverlay br adj (stageWarmth adj (tonedBase br imageUrl adj regions iw ih)))"

text \<open>
  \<open>processImageOnCanvas(imageUrl, adjustments, privacyRegions = [], quality = 0.9)\<close>:
  an undefined \<open>privacyRegions\<close> takes the default.
\<close>

definition processImageOnCanvas ::
  "browser \<Rightarrow> string \<Rightarrow> Adjustments \<Rightarrow> BoundingBox list option \<Rightarrow> rat \<Rightarrow> thrown + blob" where
  "processImageOnCanvas br imageUrl adj regions quality =
     (case loadImage br imageUrl of
        None \<Rightarrow> Inl errorEvent
      | Some (iw, ih) \<Rightarrow>
          if \<not> context2d br then Inl (plainError ''Could not get canvas context'')
          else
            let c = composite br imageUrl adj (case regions of None \<Rightarrow> [] | Some rs \<Rightarrow> rs) iw ih
            in if encodable br iw ih
               then Inr \<lparr>raster = surface c, rasterWidth = iw, rasterHeight = ih,
                         blobType = ''image/jpeg'', blobQuality = quality\<rparr>
               else Inl (plainError ''Canvas conversion failed''))"

section \<open>CanvasPreview.tsx: the warmth layer of the preview\<close>

record cssLayer =
  mixBlendMode :: compositeOperation
  background :: colour
  opacity :: rat

text \<open>
  \<open>{adjustments.warmth > 0 && <div className="... mix-blend-overlay bg-orange-500"
  style={{ opacity: adjustments.warmth / 500 }} />}\<close>
\<close>

definition previewWarmthLayer :: "Adjustments \<Rightarrow> cssLayer option" where
  "previewWarmthLayer adj =
     (if warmth adj > 0
      then Some \<lparr>mixBlendMode = Overlay, background = Named ''orange-500'',
                 opacity = warmth adj / 500\<rparr>
      else None)"

section \<open>App.tsx and imageUtils.ts: batch export\<close>

record processedFile =
  fileBlob :: blob
  fileName :: string

text \<open>
  The archive library's \<open>zip.file(name, data)\<close> adds an entry or, when the archive has
  an entry of that name, replaces its data. An archive is the list of its entries.
\<close>

fun zipFile :: "string \<Rightarrow> blob \<Rightarrow> (string \<times> blob) list \<Rightarrow> (string \<times> blob) list" where
  "zipFile n b [] = [(n, b)]"
| "zipFile n b ((n', b') # entries) =
     (if n' = n then (n, b) # entries else (n', b') # zipFile n b entries)"

datatype payload = Raster blob | Archive "(string \<times> blob) list"

text \<open>\<open>downloadBlob(blob, filename)\<close>: what the browser is asked to save.\<close>

record download =
  payload :: payload
  filename :: string

definition downloadBlob :: "payload \<Rightarrow> string \<Rightarrow> download" where
  "downloadBlob p f = \<lparr>payload = p, filename = f\<rparr>"

definition downloadAsZip :: "processedFile list \<Rightarrow> string \<Rightarrow> download" where
  "downloadAsZip files zipFilename =
     downloadBlob (Archive (fold (\<lambda>file zip. zipFile (fileName file) (fileBlob file) zip) files []))
       zipFilename"

text \<open>
  The \<open>for\<close> loop of \<open>handleBatchDownload\<close>: a rejection of \<open>processImageOnCanvas\<close>
  leaves the loop and the \<open>try\<close> block.
\<close>

fun renderAll :: "browser \<Rightarrow> ImageFile list \<Rightarrow> processedFile list \<Rightarrow> thrown + processedFile list" where
  "renderAll br [] processedFiles = Inr processedFiles"
| "renderAll br (img # targets) processedFiles =
     (case processImageOnCanvas br (originalUrl img) (adjustments img) (privacyRegions img) (9 / 10) of
        Inl e \<Rightarrow> Inl e
      | Inr processedBlob \<Rightarrow>
          renderAll br targets
            (processedFiles @ [\<lparr>fileBlob = processedBlob, fileName = ''edited_'' @ name img\<rparr>]))"

text \<open>
  What \<open>handleBatchDownload\<close> leaves behind: the downloads started and the alerts
  shown. The status text is not kept: on every path it ends as the empty string.
\<close>

record exportEffects =
  downloads :: "download list"
  alerts :: "string list"

text \<open>
  \<open>targetIds = selectedImageIds.size > 0 ? Array.from(selectedImageIds) : images.map(i => i.id)\<close>
  and \<open>targets = images.filter(i => targetIds.includes(i.id))\<close>.
\<close>

definition exportTargets :: "ImageFile list \<Rightarrow> string set \<Rightarrow> ImageFile list" where
  "exportTargets imgs selected =
     filter (\<lambda>i. if selected \<noteq> {} then imgId i \<in> selected
                  else imgId i \<in> set (map imgId imgs)) imgs"

definition handleBatchDownload :: "browser \<Rightarrow> ImageFile list \<Rightarrow> string set \<Rightarrow> exportEffects" where
  "handleBatchDownload br imgs selected =
     (if length imgs = 0 then \<lparr>downloads = [], alerts = []\<rparr>
      else
        let targets = exportTargets imgs selected
        in case renderAll br targets [] of
             Inl e \<Rightarrow> \<lparr>downloads = [], alerts = [''Erro durante o download em lote.'']\<rparr>
           | Inr processedFiles \<Rightarrow>
               if length processedFiles = 1
               then \<lparr>downloads = [downloadBlob (Raster (fileBlob (processedFiles ! 0)))
                                     (fileName (processedFiles ! 0))],
                     alerts = []\<rparr>
               else if length processedFiles > 1
               then \<lparr>downloads = [downloadAsZip processedFiles ''lumina_fotos_editadas.zip''],
                     alerts = []\<rparr>
               else \<lparr>downloads = [], alerts = []\<rparr>)"

section \<open>constants.ts and sample data\<close>

definition DEFAULT_ADJUSTMENTS :: Adjustments where
  "DEFAULT_ADJUSTMENTS =
     \<lparr>brightness = 100, contrast = 100, saturation = 100, blur = 0, sepia = 0, grayscale = 0,
      warmth = 0, watermark = '''', overlayImage = None, overlayX = 5 / 10, overlayY = 5 / 10,
      overlayScale = 2 / 10, overlayOpacity = 1, privacyBlur = False\<rparr>"

text \<open>An uploaded file \<open>n.jpg\<close> with id \<open>n\<close>, as \<open>handleFileUpload\<close> builds it.\<close>

definition exImage :: "string \<Rightarrow> Adjustments \<Rightarrow> BoundingBox list option \<Rightarrow> ImageFile" where
  "exImage n adj regions =
     \<lparr>imgId = n, originalUrl = ''blob:'' @ n, previewUrl = ''blob:'' @ n, name = n @ ''.jpg'',
      mimeType = ''image/jpeg'', adjustments = adj, privacyRegions = regions\<rparr>"

definition blurOn :: Adjustments where
  "blurOn = DEFAULT_ADJUSTMENTS\<lparr>privacyBlur := True\<rparr>"

definition quota429 :: thrown where
  "quota429 = Thrown \<lparr>status = Some 429, code = None, message = None, errName = None\<rparr>"

definition alwaysQuota :: "nat \<Rightarrow> (thrown + BoundingBox list) \<times> nat" where
  "alwaysQuota r = (Inl quota429, Suc r)"

definition alwaysBroken :: "nat \<Rightarrow> (thrown + BoundingBox list) \<times> nat" where
  "alwaysBroken r = (Inl (plainError ''Failed to fetch''), Suc r)"

definition world0 :: "nat world" where
  "world0 = \<lparr>clock = 0, events = [], remote = 0\<rparr>"

text \<open>A browser in which every image is 800 by 600 and nothing fails, and variations.\<close>

definition okBrowser :: browser where
  "okBrowser =
     \<lparr>loadImage = (\<lambda>url. Some (800, 600)), context2d = True, filterContext2d = True,
      getImageDataThrows = (\<lambda>x y w h. False), encodable = (\<lambda>w h. True)\<rparr>"

text \<open>The adjustments after \<open>applyFilter(FilterType.CINEMATIC)\<close> on the defaults.\<close>

definition cinematic :: Adjustments where
  "cinematic = DEFAULT_ADJUSTMENTS\<lparr>contrast := 110, saturation := 90, warmth := 20\<rparr>"

definition throwingBrowser :: browser where
  "throwingBrowser = okBrowser\<lparr>getImageDataThrows := (\<lambda>x y w h. True)\<rparr>"

definition badRegions :: "BoundingBox list" where
  "badRegions = [\<lparr>ymin = 500, xmin = 0, ymax = 100, xmax = 10\<rparr>,
                 \<lparr>ymin = 0, xmin = 0, ymax = 100, xmax = 100\<rparr>]"

definition brokenBrowser :: browser where
  "brokenBrowser = okBrowser\<lparr>loadImage := (\<lambda>url. if url = ''blob:b'' then None else Some (800, 600))\<rparr>"

text \<open>A photo taken with the camera input: the file name is always the same.\<close>

definition capture :: "string \<Rightarrow> ImageFile" where
  "capture n = (exImage n DEFAULT_ADJUSTMENTS None)\<lparr>name := ''image.jpg''\<rparr>"

definition sampleBox :: BoundingBox where
  "sampleBox = \<lparr>ymin = 100, xmin = 200, ymax = 300, xmax = 400\<rparr>"

text \<open>
  A service that answers every request for the image \<open>a\<close> with status 429 and finds one box
  in any other image; the source \<open>x\<close> cannot be fetched. A working set of three candidates
  with \<open>b\<close> on screen. A service without API key.
\<close>

definition env3 :: "nat env" where
  "env3 =
     \<lparr>apiKey = True,
      fetchBase64 = (\<lambda>url r. if url = ''blob:x'' then (Inl (plainError ''Failed to fetch''), r)
                              else (Inr url, r)),
      detectRequest = (\<lambda>base64 r. if base64 = ''blob:a'' then (Inl quota429, Suc r)
                                   else (Inr [sampleBox], Suc r))\<rparr>"

definition app3 :: AppState where
  "app3 =
     \<lparr>images = [exImage ''a'' blurOn None, exImage ''b'' blurOn None, exImage ''c'' blurOn None],
      viewImageId = Some ''b'', selectedImageIds = {''a'', ''b'', ''c''}, quotaCooldown = 0,
      processingMsg = '''', isDetectingPrivacy = False\<rparr>"

definition envNoKey :: "nat env" where
  "envNoKey =
     \<lparr>apiKey = False, fetchBase64 = (\<lambda>url r. (Inr url, r)),
      detectRequest = (\<lambda>base64 r. (Inr [sampleBox], Suc r))\<rparr>"

section \<open>Frame of an adjustment update\<close>

lemma updateAdjustments_length:
  "length (updateAdjustments sel newAdj imgs) = length imgs"
  by (simp add: updateAdjustments_def)

lemma updateAdjustments_nth:
  "k < length imgs \<Longrightarrow>
     updateAdjustments sel newAdj imgs ! k =
       (if imgId (imgs ! k) \<in> sel then (imgs ! k)\<lparr>adjustments := newAdj\<rparr> else imgs ! k)"
  by (simp add: updateAdjustments_def)

text \<open>
  C9. An adjustment update (a privacy-blur toggle included: it is one more value of
  \<open>newAdj\<close>) keeps the number and order of the images; at every position the id,
  originalUrl, previewUrl, name, type and privacyRegions are the ones before the update,
  a selected image gets exactly \<open>newAdj\<close> as its adjustments, and an image outside the
  selection is the same image. So a stored detection result, empty or not, survives.
\<close>

theorem updateAdjustments_frame:
  "length (updateAdjustments sel newAdj imgs) = length imgs \<and>
   (\<forall>k < length imgs.
      let old = imgs ! k; new = updateAdjustments sel newAdj imgs ! k in
        imgId new = imgId old \<and> originalUrl new = originalUrl old \<and>
        previewUrl new = previewUrl old \<and> name new = name old \<and>
        mimeType new = mimeType old \<and> privacyRegions new = privacyRegions old \<and>
        (imgId old \<in> sel \<longrightarrow> adjustments new = newAdj) \<and>
        (imgId old \<notin> sel \<longrightarrow> new = old))"
  by (simp add: updateAdjustments_length updateAdjustments_nth Let_def)

theorem updateAdjustments_frame_witness:
  "privacyRegions (updateAdjustments {''a''} blurOn
       [exImage ''a'' DEFAULT_ADJUSTMENTS (Some []), exImage ''b'' DEFAULT_ADJUSTMENTS None] ! 0) = Some [] \<and>
   adjustments (updateAdjustments {''a''} blurOn
       [exImage ''a'' DEFAULT_ADJUSTMENTS (Some []), exImage ''b'' DEFAULT_ADJUSTMENTS None] ! 0) = blurOn \<and>
   updateAdjustments {''a''} blurOn
       [exImage ''a'' DEFAULT_ADJUSTMENTS (Some []), exImage ''b'' DEFAULT_ADJUSTMENTS None] ! 1
     = exImage ''b'' DEFAULT_ADJUSTMENTS None"
proof -
  let ?imgs = "[exImage ''a'' DEFAULT_ADJUSTMENTS (Some []), exImage ''b'' DEFAULT_ADJUSTMENTS None]"
  note frame = updateAdjustments_frame [of "{''a''}" blurOn ?imgs, unfolded Let_def, THEN conjunct2]
  have k0: "(0::nat) < length ?imgs" and k1: "(1::nat) < length ?imgs" by simp_all
  from frame [rule_format, OF k0] frame [rule_format, OF k1]
  show ?thesis by (simp add: exImage_def)
qed

section \<open>Candidates of a detection run\<close>

text \<open>
  C2. The candidates are the images of the working set, in their order, that are
  selected, have privacy blur on and have no region state; an image is a candidate
  exactly when it is in the working set and meets the three conditions (so a selected
  image with blur on and absent state always is one), and an image whose region state
  is the empty set never is.
\<close>

theorem needsDetection_exact:
  "needsDetection sel imgs =
     filter (\<lambda>img. imgId img \<in> sel \<and> privacyBlur (adjustments img) \<and> privacyRegions img = None) imgs \<and>
   (img \<in> set (needsDetection sel imgs) \<longleftrightarrow>
      img \<in> set imgs \<and> imgId img \<in> sel \<and> privacyBlur (adjustments img) \<and> privacyRegions img = None) \<and>
   (privacyRegions img = Some [] \<longrightarrow> img \<notin> set (needsDetection sel imgs))"
  by (auto simp: needsDetection_def)

theorem needsDetection_exact_witness:
  "exImage ''b'' blurOn None \<in> set (needsDetection {''a'', ''b''}
       [exImage ''a'' blurOn (Some []), exImage ''b'' blurOn None]) \<and>
   exImage ''a'' blurOn (Some []) \<notin> set (needsDetection {''a'', ''b''}
       [exImage ''a'' blurOn (Some []), exImage ''b'' blurOn None])"
  using needsDetection_exact [of "{''a'', ''b''}"
          "[exImage ''a'' blurOn (Some []), exImage ''b'' blurOn None]" "exImage ''b'' blurOn None"]
        needsDetection_exact [of "{''a'', ''b''}"
          "[exImage ''a'' blurOn (Some []), exImage ''b'' blurOn None]" "exImage ''a'' blurOn (Some [])"]
  by (simp add: exImage_def blurOn_def DEFAULT_ADJUSTMENTS_def)

section \<open>The cooldown and its display\<close>

lemma cooldownRemaining_div: "cooldownRemaining now until = - ((now - until) div 1000)"
  unfolding cooldownRemaining_def
  using ceiling_divide_eq_div [of "until - now" 1000, where ?'a = rat] by simp

lemma cooldownRemaining_expired: "until \<le> now \<Longrightarrow> cooldownRemaining now until \<le> 0"
proof -
  assume "until \<le> now"
  then have "0 \<le> (now - until) div 1000" by (simp add: pos_imp_zdiv_nonneg_iff)
  then show ?thesis by (simp add: cooldownRemaining_div)
qed

lemma cooldownRemaining_negative: "until + 1000 \<le> now \<Longrightarrow> cooldownRemaining now until < 0"
proof -
  assume "until + 1000 \<le> now"
  then have "1000 \<le> now - until" by simp
  then have "1000 div 1000 \<le> (now - until) div (1000::int)" by (intro zdiv_mono1) simp_all
  then show ?thesis by (simp add: cooldownRemaining_div)
qed

text \<open>
  C7, as the claim states it, fails in the state every expired cooldown ends in. The
  breaker is tripped when the clock shows 1000, so \<open>quotaCooldown\<close> is 1000 + 60000; the
  firing of the reset interval at 62000 writes 0; the render at 62000 is past that
  cooldown and computes \<open>cooldownRemaining\<close> as -62, not 0.
\<close>

theorem cooldownRemaining_not_clamped:
  "cooldownTick 62000 (1000 + 60000) = 0 \<and>
   cooldownTick 62000 (1000 + 60000) \<le> 62000 \<and>
   cooldownRemaining 62000 (cooldownTick 62000 (1000 + 60000)) = - 62 \<and>
   cooldownRemaining 62000 (cooldownTick 62000 (1000 + 60000)) \<noteq> 0"
  by (simp add: cooldownTick_def cooldownRemaining_div)

text \<open>
  C7, amended, for a render with the clock reads \<open>nowA\<close> (guard) and \<open>nowB\<close> (value).
  If the guard read finds the breaker open, the badge and the wait notices show the
  ceiling of \<open>(until - nowB) / 1000\<close>. If the guard read is at or past \<open>until\<close>, the
  breaker is closed with no reset by hand and nothing is shown. The value is not
  clamped: from \<open>until\<close> on it is at most 0 and from one second later it is negative.
  The firing of the reset interval strictly after a positive \<open>until\<close> writes 0 and any
  other firing leaves the state; after the reset every render at a clock that is not
  negative finds the breaker closed and shows nothing.
\<close>

theorem cooldown_open_or_expired:
  "(nowA < until \<longrightarrow>
      isQuotaExhausted nowA until \<and>
      cooldownBadge (isQuotaExhausted nowA until) (cooldownRemaining nowB until) =
        Some \<lceil>(of_int (until - nowB) :: rat) / 1000\<rceil> \<and>
      quotaWaitNotice (isQuotaExhausted nowA until) (cooldownRemaining nowB until) =
        Some \<lceil>(of_int (until - nowB) :: rat) / 1000\<rceil>) \<and>
   (until \<le> nowA \<longrightarrow>
      \<not> isQuotaExhausted nowA until \<and>
      cooldownBadge (isQuotaExhausted nowA until) (cooldownRemaining nowB until) = None \<and>
      quotaWaitNotice (isQuotaExhausted nowA until) (cooldownRemaining nowB until) = None) \<and>
   (until \<le> nowB \<longrightarrow> cooldownRemaining nowB until \<le> 0) \<and>
   (until + 1000 \<le> nowB \<longrightarrow> cooldownRemaining nowB until < 0) \<and>
   (0 < until \<and> until < now \<longrightarrow> cooldownTick now until = 0) \<and>
   (until \<le> 0 \<or> now \<le> until \<longrightarrow> cooldownTick now until = until) \<and>
   (0 \<le> nowA \<longrightarrow>
      \<not> isQuotaExhausted nowA 0 \<and>
      cooldownBadge (isQuotaExhausted nowA 0) (cooldownRemaining nowB 0) = None \<and>
      quotaWaitNotice (isQuotaExhausted nowA 0) (cooldownRemaining nowB 0) = None)"
proof (intro conjI impI)
  assume "nowA < until"
  then show "isQuotaExhausted nowA until"
    and "cooldownBadge (isQuotaExhausted nowA until) (cooldownRemaining nowB until) =
        Some \<lceil>(of_int (until - nowB) :: rat) / 1000\<rceil>"
    and "quotaWaitNotice (isQuotaExhausted nowA until) (cooldownRemaining nowB until) =
        Some \<lceil>(of_int (until - nowB) :: rat) / 1000\<rceil>"
    by (simp_all add: isQuotaExhausted_def cooldownBadge_def quotaWaitNotice_def cooldownRemaining_def)
next
  assume "until \<le> nowA"
  then show "\<not> isQuotaExhausted nowA until"
    and "cooldownBadge (isQuotaExhausted nowA until) (cooldownRemaining nowB until) = None"
    and "quotaWaitNotice (isQuotaExhausted nowA until) (cooldownRemaining nowB until) = None"
    by (simp_all add: isQuotaExhausted_def cooldownBadge_def quotaWaitNotice_def)
next
  assume "until \<le> nowB"
  then show "cooldownRemaining nowB until \<le> 0" by (rule cooldownRemaining_expired)
next
  assume "until + 1000 \<le> nowB"
  then show "cooldownRemaining nowB until < 0" by (rule cooldownRemaining_negative)
next
  assume "0 < until \<and> until < now"
  then show "cooldownTick now until = 0" by (simp add: cooldownTick_def)
next
  assume "until \<le> 0 \<or> now \<le> until"
  then show "cooldownTick now until = until" by (auto simp: cooldownTick_def)
next
  assume "0 \<le> nowA"
  then show "\<not> isQuotaExhausted nowA 0"
    and "cooldownBadge (isQuotaExhausted nowA 0) (cooldownRemaining nowB 0) = None"
    and "quotaWaitNotice (isQuotaExhausted nowA 0) (cooldownRemaining nowB 0) = None"
    by (simp_all add: isQuotaExhausted_def cooldownBadge_def quotaWaitNotice_def)
qed

theorem cooldown_open_or_expired_witness:
  "cooldownBadge (isQuotaExhausted 999 61000) (cooldownRemaining 1000 61000) = Some 60 \<and>
   cooldownBadge (isQuotaExhausted 60999 61000) (cooldownRemaining 61000 61000) = Some 0 \<and>
   cooldownBadge (isQuotaExhausted 61500 61000) (cooldownRemaining 61501 61000) = None \<and>
   cooldownRemaining 62000 61000 < 0 \<and>
   cooldownTick 62000 61000 = 0 \<and> cooldownTick 61000 61000 = 61000 \<and>
   quotaWaitNotice (isQuotaExhausted 62000 0) (cooldownRemaining 62001 0) = None"
proof -
  note a = cooldown_open_or_expired [where nowA = 999 and nowB = 1000 and until = 61000]
  note b = cooldown_open_or_expired [where nowA = 60999 and nowB = 61000 and until = 61000]
  note c = cooldown_open_or_expired [where nowA = 61500 and nowB = 61501 and until = 61000]
  note d = cooldown_open_or_expired [where nowB = 62000 and until = 61000 and now = 62000]
  note e = cooldown_open_or_expired [where until = 61000 and now = 61000]
  note f = cooldown_open_or_expired [where nowA = 62000 and nowB = 62001]
  have 1: "cooldownBadge (isQuotaExhausted 999 61000) (cooldownRemaining 1000 61000) = Some 60"
    using a [THEN conjunct1] by (simp add: isQuotaExhausted_def)
  have 2: "cooldownBadge (isQuotaExhausted 60999 61000) (cooldownRemaining 61000 61000) = Some 0"
    using b [THEN conjunct1] by (simp add: isQuotaExhausted_def)
  have 3: "cooldownBadge (isQuotaExhausted 61500 61000) (cooldownRemaining 61501 61000) = None"
    using c [THEN conjunct2, THEN conjunct1] by (simp add: isQuotaExhausted_def)
  have 4: "cooldownRemaining 62000 61000 < 0"
    using d [THEN conjunct2, THEN conjunct2, THEN conjunct2, THEN conjunct1] by simp
  have 5: "cooldownTick 62000 61000 = 0"
    using d [THEN conjunct2, THEN conjunct2, THEN conjunct2, THEN conjunct2, THEN conjunct1]
    by simp
  have 6: "cooldownTick 61000 61000 = 61000"
    using e [THEN conjunct2, THEN conjunct2, THEN conjunct2, THEN conjunct2, THEN conjunct2,
      THEN conjunct1] by simp
  have 7: "quotaWaitNotice (isQuotaExhausted 62000 0) (cooldownRemaining 62001 0) = None"
    using f [THEN conjunct2, THEN conjunct2, THEN conjunct2, THEN conjunct2, THEN conjunct2,
      THEN conjunct2] by (simp add: isQuotaExhausted_def)
  from 1 2 3 4 5 6 7 show ?thesis by blast
qed

section \<open>Retry with backoff\<close>

lemma retry_value:
  "fn (remote w) = (Inr v, r') \<Longrightarrow>
     retryWithBackoff fn retries delay w = (Inr v, w\<lparr>events := events w @ [Call], remote := r'\<rparr>)"
  by (subst retryWithBackoff.simps) (simp add: invoke_def)

lemma retry_other:
  "fn (remote w) = (Inl e, r') \<Longrightarrow> \<not> isRateLimit e \<Longrightarrow>
     retryWithBackoff fn retries delay w = (Inl e, w\<lparr>events := events w @ [Call], remote := r'\<rparr>)"
  by (subst retryWithBackoff.simps) (simp add: invoke_def)

lemma retry_again:
  "fn (remote w) = (Inl e, r') \<Longrightarrow> isRateLimit e \<Longrightarrow> 0 < retries \<Longrightarrow>
     retryWithBackoff fn retries delay w =
       retryWithBackoff fn (retries - 1) (delay * 2)
         (wait delay (w\<lparr>events := events w @ [Call], remote := r'\<rparr>))"
  by (subst retryWithBackoff.simps) (simp add: invoke_def)

lemma retry_exhausted:
  "fn (remote w) = (Inl e, r') \<Longrightarrow> isRateLimit e \<Longrightarrow> retries \<le> 0 \<Longrightarrow>
     retryWithBackoff fn retries delay w =
       (Inl GeminiQuotaError, w\<lparr>events := events w @ [Call], remote := r'\<rparr>)"
  by (subst retryWithBackoff.simps) (simp add: invoke_def)

lemma retry_defaults_all_quota:
  assumes fails: "\<forall>r. \<exists>e r'. fn r = (Inl e, r') \<and> isRateLimit e"
  shows "fst (retryWithBackoff fn 2 2000 w) = Inl GeminiQuotaError \<and>
         events (snd (retryWithBackoff fn 2 2000 w)) =
           events w @ [Call, Wait 2000, Call, Wait 4000, Call] \<and>
         clock (snd (retryWithBackoff fn 2 2000 w)) = clock w + 6000"
proof -
  from fails obtain e1 r1 where 1: "fn (remote w) = (Inl e1, r1)" "isRateLimit e1" by blast
  define w1 where "w1 = wait 2000 (w\<lparr>events := events w @ [Call], remote := r1\<rparr>)"
  from fails obtain e2 r2 where 2: "fn (remote w1) = (Inl e2, r2)" "isRateLimit e2" by blast
  define w2 where "w2 = wait (2000 * 2) (w1\<lparr>events := events w1 @ [Call], remote := r2\<rparr>)"
  from fails obtain e3 r3 where 3: "fn (remote w2) = (Inl e3, r3)" "isRateLimit e3" by blast
  have "retryWithBackoff fn 2 2000 w = retryWithBackoff fn 1 (2000 * 2) w1"
    using 1 retry_again [of fn w e1 r1 2 2000] by (simp add: w1_def)
  also have "\<dots> = retryWithBackoff fn 0 (2000 * 2 * 2) w2"
    using 2 retry_again [of fn w1 e2 r2 1 "2000 * 2"] by (simp add: w2_def)
  also have "\<dots> = (Inl GeminiQuotaError, w2\<lparr>events := events w2 @ [Call], remote := r3\<rparr>)"
    using 3 retry_exhausted [of fn w2 e3 r3 0 "2000 * 2 * 2"] by simp
  finally show ?thesis
    by (simp add: w1_def w2_def wait_def)
qed

text \<open>
  C1. With the defaults (2 retries, 2000 ms), an operation that fails at every call with
  an error classified as quota exhaustion (\<open>isRateLimit\<close>: status 429, code 429, or a
  message that includes "429" or "Quota") is called exactly three times, with 2000 ms
  awaited before the second call and 4000 ms before the third and nothing else awaited,
  and the result is the rejection with \<open>GeminiQuotaError\<close>, not with the error of the
  operation. A failure that is not so classified is the result as it is, after that one
  call and with no timer, whatever retries are left.
\<close>

theorem retryWithBackoff_quota_policy:
  "((\<forall>r. \<exists>e r'. fn r = (Inl e, r') \<and> isRateLimit e) \<longrightarrow>
      fst (retryWithBackoff fn 2 2000 w) = Inl GeminiQuotaError \<and>
      events (snd (retryWithBackoff fn 2 2000 w)) =
        events w @ [Call, Wait 2000, Call, Wait 4000, Call] \<and>
      clock (snd (retryWithBackoff fn 2 2000 w)) = clock w + 6000) \<and>
   (fn (remote w) = (Inl e, r') \<and> \<not> isRateLimit e \<longrightarrow>
      retryWithBackoff fn retries delay w =
        (Inl e, w\<lparr>events := events w @ [Call], remote := r'\<rparr>))"
proof (intro conjI impI)
  assume "\<forall>r. \<exists>e r'. fn r = (Inl e, r') \<and> isRateLimit e"
  from retry_defaults_all_quota [OF this, of w]
  show "fst (retryWithBackoff fn 2 2000 w) = Inl GeminiQuotaError"
    and "events (snd (retryWithBackoff fn 2 2000 w)) =
        events w @ [Call, Wait 2000, Call, Wait 4000, Call]"
    and "clock (snd (retryWithBackoff fn 2 2000 w)) = clock w + 6000"
    by auto
next
  assume "fn (remote w) = (Inl e, r') \<and> \<not> isRateLimit e"
  then show "retryWithBackoff fn retries delay w =
        (Inl e, w\<lparr>events := events w @ [Call], remote := r'\<rparr>)"
    by (simp add: retry_other)
qed

theorem retryWithBackoff_quota_policy_witness:
  "fst (retryWithBackoff alwaysQuota 2 2000 world0) = Inl GeminiQuotaError \<and>
   events (snd (retryWithBackoff alwaysQuota 2 2000 world0)) = [Call, Wait 2000, Call, Wait 4000, Call] \<and>
   retryWithBackoff alwaysBroken 2 2000 world0 =
     (Inl (plainError ''Failed to fetch''), \<lparr>clock = 0, events = [Call], remote = 1\<rparr>)"
proof -
  have q: "\<forall>r. \<exists>e r'. alwaysQuota r = (Inl e, r') \<and> isRateLimit e"
    by (simp add: alwaysQuota_def quota429_def isRateLimit_def)
  have b: "alwaysBroken (remote world0) = (Inl (plainError ''Failed to fetch''), 1) \<and>
           \<not> isRateLimit (plainError ''Failed to fetch'')"
    by (simp add: alwaysBroken_def world0_def plainError_def isRateLimit_def messageIncludes_def)
  from retryWithBackoff_quota_policy [where fn = alwaysQuota and w = world0,
      THEN conjunct1, THEN mp, OF q]
    retryWithBackoff_quota_policy [where fn = alwaysBroken and w = world0
      and e = "plainError ''Failed to fetch''" and r' = 1 and retries = 2 and delay = 2000,
      THEN conjunct2, THEN mp, OF b]
  show ?thesis by (simp add: world0_def)
qed

section \<open>The export compositing pipeline\<close>

lemma painted_width [simp]: "width (painted p c) = width c"
  and painted_height [simp]: "height (painted p c) = height c"
  by (simp_all add: painted_def)









lemma processImageOnCanvas_rejects:
  "isl (processImageOnCanvas br url adj regions q) \<longleftrightarrow>
     loadImage br url = None \<or> \<not> context2d br \<or>
     (\<exists>iw ih. loadImage br url = Some (iw, ih) \<and> \<not> encodable br iw ih)"
  by (auto simp: processImageOnCanvas_def Let_def split: option.splits)




lemma stageWarmth_paint:
  "0 < warmth adj \<Longrightarrow>
     stageWarmth adj c =
       c\<lparr>ctx := (ctx c)\<lparr>ctxFilter := [], fillStyle := Rgba 255 160 0 (warmth adj / 500)\<rparr>,
         surface := surface c @
           [FillRect ((ctx c)\<lparr>ctxFilter := [], fillStyle := Rgba 255 160 0 (warmth adj / 500)\<rparr>)
              0 0 (of_int (width c)) (of_int (height c))]\<rparr>"
  by (simp add: stageWarmth_def painted_def)

lemma stageWarmth_neutral: "warmth adj = 0 \<Longrightarrow> stageWarmth adj c = c"
  by (simp add: stageWarmth_def)

text \<open>
  C6 fails on the export path. With the warmth of the cinematic filter (20), the export
  paints the filtered image and then one rectangle over the whole frame in
  \<open>rgba(255, 160, 0, 20/500)\<close>, and the context's compositing operation at that paint
  is the initial \<open>source-over\<close>, a flat tint; the preview's warmth layer for the same
  adjustments has the same opacity and the blend mode \<open>overlay\<close>.
\<close>

theorem export_warmth_source_over:
  "(\<exists>toned. raster (projr (processImageOnCanvas okBrowser ''blob:a'' cinematic None (9 / 10))) =
      [toned, FillRect (freshState\<lparr>fillStyle := Rgba 255 160 0 (20 / 500)\<rparr>) 0 0 800 600]) \<and>
   globalCompositeOperation (freshState\<lparr>fillStyle := Rgba 255 160 0 (20 / 500)\<rparr>) = SourceOver \<and>
   previewWarmthLayer cinematic =
     Some \<lparr>mixBlendMode = Overlay, background = Named ''orange-500'', opacity = 20 / 500\<rparr>"
  by (simp add: processImageOnCanvas_def okBrowser_def composite_def tonedBase_def stageWatermark_def
      stageOverlay_def stageWarmth_def stageFilters_def stagePrivacy_def painted_def cinematic_def
      DEFAULT_ADJUSTMENTS_def freshState_def previewWarmthLayer_def)


lemma renderAll_rejects:
  "\<exists>t\<in>set targets. isl (processImageOnCanvas br (originalUrl t) (adjustments t) (privacyRegions t) (9 / 10)) \<Longrightarrow>
     isl (renderAll br targets acc)"
proof (induction targets arbitrary: acc)
  case Nil
  then show ?case by simp
next
  case (Cons t targets)
  then show ?case
    by (cases "processImageOnCanvas br (originalUrl t) (adjustments t) (privacyRegions t) (9 / 10)") auto
qed

text \<open>
  C5, as the claim states it, fails: an image whose first region has its bounds in the
  wrong order and whose second region makes \<open>getImageData\<close> throw is exported all the
  same; the batch is not aborted and no alert is shown.
\<close>

theorem invalid_region_does_not_abort:
  "alerts (handleBatchDownload throwingBrowser [exImage ''a'' blurOn (Some badRegions)] {}) = [] \<and>
   map filename (downloads (handleBatchDownload throwingBrowser [exImage ''a'' blurOn (Some badRegions)] {}))
     = [''edited_a.jpg'']"
  by (simp add: handleBatchDownload_def exportTargets_def exImage_def processImageOnCanvas_def
      throwingBrowser_def okBrowser_def downloadBlob_def)

text \<open>
  C5, amended. If the compositing of any target of a batch export is rejected, the
  export starts no download at all and shows the one generic alert. A compositing is
  rejected exactly when the source image does not load, the canvas has no 2D context, or
  the canvas cannot be converted to a blob: neither the regions nor the adjustments have
  a part in it.
\<close>

theorem batch_export_all_or_nothing:
  "(imgs \<noteq> [] \<and>
      (\<exists>t\<in>set (exportTargets imgs sel).
          isl (processImageOnCanvas br (originalUrl t) (adjustments t) (privacyRegions t) (9 / 10)))
      \<longrightarrow> handleBatchDownload br imgs sel =
            \<lparr>downloads = [], alerts = [''Erro durante o download em lote.'']\<rparr>) \<and>
   (isl (processImageOnCanvas br url adj regions q) \<longleftrightarrow>
      loadImage br url = None \<or> \<not> context2d br \<or>
      (\<exists>iw ih. loadImage br url = Some (iw, ih) \<and> \<not> encodable br iw ih))"
proof (intro conjI impI)
  assume a: "imgs \<noteq> [] \<and>
      (\<exists>t\<in>set (exportTargets imgs sel).
          isl (processImageOnCanvas br (originalUrl t) (adjustments t) (privacyRegions t) (9 / 10)))"
  then have "isl (renderAll br (exportTargets imgs sel) [])" by (simp add: renderAll_rejects)
  then obtain e where "renderAll br (exportTargets imgs sel) [] = Inl e"
    by (cases "renderAll br (exportTargets imgs sel) []") auto
  with a show "handleBatchDownload br imgs sel =
            \<lparr>downloads = [], alerts = [''Erro durante o download em lote.'']\<rparr>"
    by (simp add: handleBatchDownload_def)
next
  show "isl (processImageOnCanvas br url adj regions q) \<longleftrightarrow>
      loadImage br url = None \<or> \<not> context2d br \<or>
      (\<exists>iw ih. loadImage br url = Some (iw, ih) \<and> \<not> encodable br iw ih)"
    by (rule processImageOnCanvas_rejects)
qed


theorem batch_export_all_or_nothing_witness:
  "handleBatchDownload brokenBrowser
     [exImage ''a'' DEFAULT_ADJUSTMENTS None, exImage ''b'' DEFAULT_ADJUSTMENTS None,
      exImage ''c'' DEFAULT_ADJUSTMENTS None] {} =
     \<lparr>downloads = [], alerts = [''Erro durante o download em lote.'']\<rparr>"
proof -
  let ?imgs = "[exImage ''a'' DEFAULT_ADJUSTMENTS None, exImage ''b'' DEFAULT_ADJUSTMENTS None,
      exImage ''c'' DEFAULT_ADJUSTMENTS None]"
  have "isl (processImageOnCanvas brokenBrowser (originalUrl (exImage ''b'' DEFAULT_ADJUSTMENTS None))
          (adjustments (exImage ''b'' DEFAULT_ADJUSTMENTS None))
          (privacyRegions (exImage ''b'' DEFAULT_ADJUSTMENTS None)) (9 / 10))"
    by (simp add: processImageOnCanvas_def brokenBrowser_def okBrowser_def exImage_def)
  moreover have "exImage ''b'' DEFAULT_ADJUSTMENTS None \<in> set (exportTargets ?imgs {})"
    by (simp add: exportTargets_def exImage_def)
  ultimately have h: "?imgs \<noteq> [] \<and>
      (\<exists>t\<in>set (exportTargets ?imgs {}).
          isl (processImageOnCanvas brokenBrowser (originalUrl t) (adjustments t) (privacyRegions t) (9 / 10)))"
    by blast
  from batch_export_all_or_nothing [where imgs = ?imgs and sel = "{}" and br = brokenBrowser,
      THEN conjunct1, THEN mp, OF h]
  show ?thesis .
qed


section \<open>Names and packaging of a batch export\<close>

lemma renderAll_names:
  "renderAll br targets acc = Inr files \<Longrightarrow>
     map fileName files = map fileName acc @ map (\<lambda>i. ''edited_'' @ name i) targets"
proof (induction targets arbitrary: acc)
  case Nil
  then show ?case by simp
next
  case (Cons t targets)
  then show ?case
    by (cases "processImageOnCanvas br (originalUrl t) (adjustments t) (privacyRegions t) (9 / 10)") auto
qed

lemma zipFile_fresh: "n \<notin> fst ` set entries \<Longrightarrow> zipFile n b entries = entries @ [(n, b)]"
  by (induction entries) auto

lemma zip_distinct_names:
  "distinct (map fileName acc @ map fileName files) \<Longrightarrow>
     fold (\<lambda>file zip. zipFile (fileName file) (fileBlob file) zip) files
          (map (\<lambda>f. (fileName f, fileBlob f)) acc) =
       map (\<lambda>f. (fileName f, fileBlob f)) (acc @ files)"
proof (induction files arbitrary: acc)
  case Nil
  then show ?case by simp
next
  case (Cons f files)
  have "fileName f \<notin> fst ` set (map (\<lambda>f. (fileName f, fileBlob f)) acc)"
    using Cons.prems by (auto simp: image_iff)
  then have "zipFile (fileName f) (fileBlob f) (map (\<lambda>f. (fileName f, fileBlob f)) acc) =
        map (\<lambda>f. (fileName f, fileBlob f)) (acc @ [f])"
    by (simp add: zipFile_fresh)
  moreover have "distinct (map fileName (acc @ [f]) @ map fileName files)"
    using Cons.prems by auto
  ultimately show ?case
    using Cons.IH [of "acc @ [f]"] by simp
qed

lemma handleBatchDownload_rendered:
  assumes "imgs \<noteq> []" and "renderAll br (exportTargets imgs sel) [] = Inr files"
  shows "downloads (handleBatchDownload br imgs sel) =
     (if length files = 1
      then [\<lparr>payload = Raster (fileBlob (files ! 0)), filename = fileName (files ! 0)\<rparr>]
      else if length files > 1
      then [\<lparr>payload = Archive (fold (\<lambda>file zip. zipFile (fileName file) (fileBlob file) zip) files []),
             filename = ''lumina_fotos_editadas.zip''\<rparr>]
      else [])"
  using assms by (simp add: handleBatchDownload_def downloadBlob_def downloadAsZip_def)

lemma export_distinct_names:
  assumes "imgs \<noteq> []" and "renderAll br (exportTargets imgs sel) [] = Inr files"
    and "distinct (map name (exportTargets imgs sel))"
  shows "length files = length (exportTargets imgs sel) \<and>
     map fileName files = map (\<lambda>i. ''edited_'' @ name i) (exportTargets imgs sel) \<and>
     (length files = 1 \<longrightarrow>
        downloads (handleBatchDownload br imgs sel) =
          [\<lparr>payload = Raster (fileBlob (files ! 0)), filename = ''edited_'' @ name (exportTargets imgs sel ! 0)\<rparr>]) \<and>
     (length files > 1 \<longrightarrow>
        downloads (handleBatchDownload br imgs sel) =
          [\<lparr>payload = Archive (map (\<lambda>f. (fileName f, fileBlob f)) files),
            filename = ''lumina_fotos_editadas.zip''\<rparr>])"
proof -
  let ?ts = "exportTargets imgs sel"
  from renderAll_names [OF assms(2)]
  have names: "map fileName files = map (\<lambda>i. ''edited_'' @ name i) ?ts" by simp
  from arg_cong [OF names, of length]
  have len: "length files = length ?ts" by simp
  have "distinct (map (\<lambda>i. ''edited_'' @ name i) ?ts)"
    using assms(3) by (simp add: distinct_map inj_on_def)
  with names have d: "distinct (map fileName files)" by simp
  from zip_distinct_names [of "[]" files] d
  have z: "fold (\<lambda>file zip. zipFile (fileName file) (fileBlob file) zip) files [] =
       map (\<lambda>f. (fileName f, fileBlob f)) files" by simp
  have one: "fileName (files ! 0) = ''edited_'' @ name (?ts ! 0)" if "length files = 1"
  proof -
    from that have "0 < length files" by simp
    then have "map fileName files ! 0 = fileName (files ! 0)" by (rule nth_map)
    moreover from that len have "0 < length ?ts" by simp
    then have "map (\<lambda>i. ''edited_'' @ name i) ?ts ! 0 = ''edited_'' @ name (?ts ! 0)" by (rule nth_map)
    ultimately show ?thesis using names by simp
  qed
  note hb = handleBatchDownload_rendered [OF assms(1,2)]
  have c3: "length files = 1 \<longrightarrow>
        downloads (handleBatchDownload br imgs sel) =
          [\<lparr>payload = Raster (fileBlob (files ! 0)), filename = ''edited_'' @ name (?ts ! 0)\<rparr>]"
    using hb one by simp
  have c4: "length files > 1 \<longrightarrow>
        downloads (handleBatchDownload br imgs sel) =
          [\<lparr>payload = Archive (map (\<lambda>f. (fileName f, fileBlob f)) files),
            filename = ''lumina_fotos_editadas.zip''\<rparr>]"
    using hb z by simp
  from len names c3 c4 show ?thesis by blast
qed

text \<open>
  C4 fails on the code when two targets have the same name. Two photos taken with the
  camera input are both named \<open>image.jpg\<close>: both are targets and both are rendered,
  and the archive that is downloaded has one entry, \<open>edited_image.jpg\<close>, because the
  second \<open>zip.file\<close> replaces the entry the first one added.
\<close>

theorem same_name_entries_collapse:
  "length (exportTargets [capture ''a'', capture ''b''] {''a'', ''b''}) = 2 \<and>
   (\<exists>b. downloads (handleBatchDownload okBrowser [capture ''a'', capture ''b''] {''a'', ''b''}) =
      [\<lparr>payload = Archive [(''edited_image.jpg'', b)], filename = ''lumina_fotos_editadas.zip''\<rparr>])"
  by (simp add: handleBatchDownload_def exportTargets_def capture_def exImage_def processImageOnCanvas_def
      okBrowser_def downloadBlob_def downloadAsZip_def)

section \<open>The privacy detection run\<close>

lemma fetched_append [simp]: "fetched (xs @ ys) = fetched xs @ fetched ys"
  by (simp add: fetched_def)

lemma fetched_simps [simp]:
  "fetched [] = []" "fetched [Call] = []" "fetched [Wait ms] = []" "fetched [Fetch u] = [u]"
  by (simp_all add: fetched_def)

subsection \<open>Clock and fetches through the service calls\<close>

lemma wait_props [simp]:
  "clock w \<le> clock (wait ms w)" "fetched (events (wait ms w)) = fetched (events w)"
  "remote (wait ms w) = remote w"
  by (simp_all add: wait_def)

lemma invoke_props:
  "invoke f ev w = (res, w') \<Longrightarrow> clock w' = clock w \<and> events w' = events w @ [ev]"
  by (auto simp: invoke_def split: prod.splits)

lemma retryWithBackoff_props:
  "retryWithBackoff fn retries delay w = (res, w') \<Longrightarrow>
     clock w \<le> clock w' \<and> fetched (events w') = fetched (events w)"
proof (induction fn retries delay w arbitrary: res w' rule: retryWithBackoff.induct)
  case (1 fn retries delay w)
  obtain r0 w0 where inv: "invoke fn Call w = (r0, w0)" by (cases "invoke fn Call w")
  from invoke_props [OF inv] have w0: "clock w0 = clock w" "events w0 = events w @ [Call]" by simp_all
  show ?case
  proof (cases r0)
    case (Inr v)
    with inv "1.prems" w0 show ?thesis
      by (subst (asm) retryWithBackoff.simps) auto
  next
    case (Inl e)
    show ?thesis
    proof (cases "isRateLimit e \<and> retries > 0")
      case True
      with inv Inl "1.prems"
      have rec: "retryWithBackoff fn (retries - 1) (delay * 2) (wait delay w0) = (res, w')"
        by (subst (asm) retryWithBackoff.simps) simp
      from "1.IH" [OF inv [symmetric] _ _ _ rec] Inl True
      have "clock (wait delay w0) \<le> clock w' \<and> fetched (events w') = fetched (events (wait delay w0))"
        by simp
      with w0 show ?thesis
        using wait_props(1) [of w0 delay] by simp
    next
      case False
      with inv Inl "1.prems" w0 show ?thesis
        by (subst (asm) retryWithBackoff.simps) (auto split: if_splits)
    qed
  qed
qed

lemma detectPrivacyObjects_props:
  "detectPrivacyObjects env b w = (res, w') \<Longrightarrow>
     clock w \<le> clock w' \<and> fetched (events w') = fetched (events w)"
  by (auto simp: detectPrivacyObjects_def split: if_splits prod.splits sum.splits
           dest: retryWithBackoff_props)

lemma detectFor_props:
  "detectFor env img w = (res, w') \<Longrightarrow>
     clock w \<le> clock w' \<and> fetched (events w') = fetched (events w) @ [originalUrl img]"
proof -
  assume d: "detectFor env img w = (res, w')"
  obtain r0 w0 where inv: "invoke (fetchBase64 env (originalUrl img)) (Fetch (originalUrl img)) w = (r0, w0)"
    by (cases "invoke (fetchBase64 env (originalUrl img)) (Fetch (originalUrl img)) w")
  from invoke_props [OF inv]
  have w0: "clock w0 = clock w" "events w0 = events w @ [Fetch (originalUrl img)]" by simp_all
  show ?thesis
  proof (cases r0)
    case (Inl e)
    with d inv w0 show ?thesis by (simp add: detectFor_def)
  next
    case (Inr b)
    with d inv have "detectPrivacyObjects env b w0 = (res, w')" by (simp add: detectFor_def)
    from detectPrivacyObjects_props [OF this] w0 show ?thesis by simp
  qed
qed


subsection \<open>One iteration of the loop\<close>

lemma detectLoop_quota:
  "\<not> clock w < cd \<Longrightarrow> detectFor env img w = (Inl e, w') \<Longrightarrow> isGeminiQuotaError e \<Longrightarrow>
     detectLoop env cd (img # queue) a w =
       (a\<lparr>quotaCooldown := clock w' + 60 * 1000,
          processingMsg := ''Cota de IA atingida. Pausando por 60s...''\<rparr>, w', True)"
  by simp

lemma detectLoop_other_failure:
  "\<not> clock w < cd \<Longrightarrow> detectFor env img w = (Inl e, w') \<Longrightarrow> \<not> isGeminiQuotaError e \<Longrightarrow>
     detectLoop env cd (img # queue) a w = detectLoop env cd queue a w'"
  by simp

lemma detectLoop_null:
  "\<not> clock w < cd \<Longrightarrow> detectFor env img w = (Inr None, w') \<Longrightarrow>
     detectLoop env cd (img # queue) a w = detectLoop env cd queue a (wait 4000 w')"
  by simp

lemma detectLoop_boxes:
  "\<not> clock w < cd \<Longrightarrow> detectFor env img w = (Inr (Some bs), w') \<Longrightarrow>
     detectLoop env cd (img # queue) a w =
       detectLoop env cd queue (a\<lparr>images := storeRegions (imgId img) bs (images a)\<rparr>) (wait 4000 w')"
  by simp

subsection \<open>The whole loop\<close>

lemma detectLoop_append:
  "detectLoop env cd (xs @ ys) a w =
     (case detectLoop env cd xs a w of
        (a1, w1, halted) \<Rightarrow> if halted then (a1, w1, True) else detectLoop env cd ys a1 w1)"
proof (induction xs arbitrary: a w)
  case Nil
  show ?case by simp
next
  case (Cons x xs)
  obtain r0 w0 where d: "detectFor env x w = (r0, w0)" by (cases "detectFor env x w")
  show ?case
  proof (cases "clock w < cd")
    case True
    then show ?thesis by simp
  next
    case False
    with d Cons.IH show ?thesis
      by (cases r0) (simp_all split: option.splits)
  qed
qed

lemma storeRegions_map:
  "storeRegions ident bs imgs = map (\<lambda>i. if imgId i = ident then i\<lparr>privacyRegions := Some bs\<rparr> else i) imgs"
  by (simp add: storeRegions_def)

text \<open>
  What a run can do to the state: the images are mapped by a function that keeps ids and
  leaves alone every image whose id is not an id of the queue; the clock does not go
  back; selection, viewed image and lock are as before.
\<close>

lemma detectLoop_props:
  "detectLoop env cd queue a w = (a', w', halted) \<Longrightarrow>
     clock w \<le> clock w' \<and>
     selectedImageIds a' = selectedImageIds a \<and> viewImageId a' = viewImageId a \<and>
     isDetectingPrivacy a' = isDetectingPrivacy a \<and>
     (\<exists>f. images a' = map f (images a) \<and>
          (\<forall>i. imgId (f i) = imgId i \<and> (imgId i \<notin> imgId ` set queue \<longrightarrow> f i = i)))"
proof (induction queue arbitrary: a w)
  case Nil
  then have "a' = a" "w' = w" by simp_all
  then show ?case by (auto intro: exI [of _ "\<lambda>i. i"])
next
  case (Cons x queue)
  obtain r0 w0 where d: "detectFor env x w = (r0, w0)" by (cases "detectFor env x w")
  from detectFor_props [OF d] have c0: "clock w \<le> clock w0" by simp
  then have cw: "clock w \<le> clock (wait 4000 w0)" by (simp add: wait_def)
  show ?case
  proof (cases "clock w < cd")
    case True
    with Cons.prems have "a' = a" "w' = w" by simp_all
    then show ?thesis by (auto intro: exI [of _ "\<lambda>i. i"])
  next
    case False
    show ?thesis
    proof (cases r0)
      case (Inl e)
      show ?thesis
      proof (cases "isGeminiQuotaError e")
        case True
        with False d Inl Cons.prems
        have "a' = a\<lparr>quotaCooldown := clock w0 + 60 * 1000,
                 processingMsg := ''Cota de IA atingida. Pausando por 60s...''\<rparr>" "w' = w0"
          by auto
        with c0 show ?thesis by (auto intro: exI [of _ "\<lambda>i. i"])
      next
        case q: False
        with False d Inl Cons.prems have "detectLoop env cd queue a w0 = (a', w', halted)" by simp
        from Cons.IH [OF this] c0 show ?thesis by auto
      qed
    next
      case (Inr boxes)
      show ?thesis
      proof (cases boxes)
        case None
        with False d Inr Cons.prems
        have "detectLoop env cd queue a (wait 4000 w0) = (a', w', halted)" by simp
        from Cons.IH [OF this] cw show ?thesis by auto
      next
        case (Some bs)
        let ?g = "\<lambda>i. if imgId i = imgId x then i\<lparr>privacyRegions := Some bs\<rparr> else i"
        let ?a1 = "a\<lparr>images := storeRegions (imgId x) bs (images a)\<rparr>"
        from False d Inr Some Cons.prems
        have "detectLoop env cd queue ?a1 (wait 4000 w0) = (a', w', halted)" by simp
        from Cons.IH [OF this] obtain f where
          base: "clock (wait 4000 w0) \<le> clock w'" "selectedImageIds a' = selectedImageIds a"
            "viewImageId a' = viewImageId a" "isDetectingPrivacy a' = isDetectingPrivacy a"
          and f: "images a' = map f (images ?a1)"
            "\<forall>i. imgId (f i) = imgId i \<and> (imgId i \<notin> imgId ` set queue \<longrightarrow> f i = i)"
          by auto
        have "images a' = map (f \<circ> ?g) (images a)"
          using f(1) by (simp add: storeRegions_map)
        moreover have "\<forall>i. imgId ((f \<circ> ?g) i) = imgId i \<and>
            (imgId i \<notin> imgId ` set (x # queue) \<longrightarrow> (f \<circ> ?g) i = i)"
          using f(2) by simp
        ultimately have "\<exists>h. images a' = map h (images a) \<and>
            (\<forall>i. imgId (h i) = imgId i \<and> (imgId i \<notin> imgId ` set (x # queue) \<longrightarrow> h i = i))"
          by blast
        with base cw show ?thesis by auto
      qed
    qed
  qed
qed

text \<open>A loop that was not left by \<open>break\<close> fetched every image of the queue, in order.\<close>

lemma detectLoop_fetched:
  "detectLoop env cd queue a w = (a', w', False) \<Longrightarrow>
     fetched (events w') = fetched (events w) @ map originalUrl queue"
proof (induction queue arbitrary: a w)
  case Nil
  then show ?case by simp
next
  case (Cons x queue)
  obtain r0 w0 where d: "detectFor env x w = (r0, w0)" by (cases "detectFor env x w")
  from detectFor_props [OF d]
  have f0: "fetched (events w0) = fetched (events w) @ [originalUrl x]" by simp
  from Cons.prems have nc: "\<not> clock w < cd" by (auto split: if_splits)
  show ?case
  proof (cases r0)
    case (Inl e)
    with nc d Cons.prems have "\<not> isGeminiQuotaError e" by (auto split: if_splits)
    with nc d Inl Cons.prems have "detectLoop env cd queue a w0 = (a', w', False)" by simp
    from Cons.IH [OF this] f0 show ?thesis by simp
  next
    case (Inr boxes)
    with nc d Cons.prems obtain a1 where
      "detectLoop env cd queue a1 (wait 4000 w0) = (a', w', False)" by simp
    from Cons.IH [OF this] f0 show ?thesis by simp
  qed
qed


subsection \<open>The queue\<close>

lemma needsDetection_candidates:
  "set (needsDetection sel imgs) \<subseteq> set imgs"
  "x \<in> set (needsDetection sel imgs) \<Longrightarrow> privacyRegions x = None"
  "distinct (map imgId imgs) \<Longrightarrow> distinct (map imgId (needsDetection sel imgs))"
  by (auto simp: needsDetection_def distinct_map_filter)

lemma detectionQueue_subset: "set (detectionQueue view nd) \<subseteq> set nd"
  by (auto simp: detectionQueue_def split: option.splits dest: find_Some_iff [THEN iffD1])

lemma detectionQueue_not_viewed:
  "\<forall>p\<in>set nd. Some (imgId p) \<noteq> view \<Longrightarrow> detectionQueue view nd = nd"
proof -
  assume "\<forall>p\<in>set nd. Some (imgId p) \<noteq> view"
  then have "find (\<lambda>img. Some (imgId img) = view) nd = None" by (simp add: find_None_iff)
  then show ?thesis by (simp add: detectionQueue_def)
qed

lemma detectionQueue_viewed:
  assumes "distinct (map imgId nd)" and "p \<in> set nd" and "Some (imgId p) = view"
  shows "detectionQueue view nd = p # filter (\<lambda>i. i \<noteq> p) nd"
proof -
  have inj: "inj_on imgId (set nd)" using assms(1) by (simp add: distinct_map)
  obtain q where q: "find (\<lambda>img. Some (imgId img) = view) nd = Some q"
    using assms(2,3) by (cases "find (\<lambda>img. Some (imgId img) = view) nd") (auto simp: find_None_iff)
  then have "q \<in> set nd" "Some (imgId q) = view"
    by (auto simp: find_Some_iff)
  with assms(2,3) inj have "q = p" by (auto dest: inj_onD)
  moreover have "filter (\<lambda>i. Some (imgId i) \<noteq> view) nd = filter (\<lambda>i. i \<noteq> p) nd"
    using assms(2,3) inj by (intro filter_cong) (auto dest: inj_onD)
  ultimately show ?thesis using q by (simp add: detectionQueue_def)
qed

lemma detectionQueue_distinct:
  assumes "distinct (map imgId nd)"
  shows "distinct (map imgId (detectionQueue view nd))"
proof (cases "\<exists>p\<in>set nd. Some (imgId p) = view")
  case True
  then obtain p where p: "p \<in> set nd" "Some (imgId p) = view" by blast
  have inj: "inj_on imgId (set nd)" using assms by (simp add: distinct_map)
  have "distinct (map imgId (filter (\<lambda>i. i \<noteq> p) nd))"
    using assms by (rule distinct_map_filter)
  moreover have "imgId p \<notin> imgId ` set (filter (\<lambda>i. i \<noteq> p) nd)"
    using p(1) inj by (auto dest: inj_onD)
  ultimately show ?thesis
    by (simp add: detectionQueue_viewed [OF assms p])
next
  case False
  then show ?thesis using assms by (simp add: detectionQueue_not_viewed)
qed


lemma quota_error_ends_run:
  assumes ids: "distinct (map imgId (images a))"
    and idle: "\<not> isDetectingPrivacy a" "\<not> clock w < quotaCooldown a"
    and queue: "detectionQueue (viewImageId a) (needsDetection (selectedImageIds a) (images a))
                  = pre @ c # post"
    and pre: "detectLoop env (quotaCooldown a) pre (a\<lparr>isDetectingPrivacy := True\<rparr>) w = (a1, w1, False)"
    and quota: "detectFor env c w1 = (Inl e, w2)" "isGeminiQuotaError e"
  shows
    "checkPrivacy env a w =
       (a1\<lparr>quotaCooldown := clock w2 + 60000,
           processingMsg := ''Cota de IA atingida. Pausando por 60s...'',
           isDetectingPrivacy := False\<rparr>, w2) \<and>
     fetched (events w2) = fetched (events w) @ map originalUrl (pre @ [c]) \<and>
     (\<forall>x\<in>set (c # post). x \<in> set (images a1) \<and> privacyRegions x = None)"
proof -
  let ?nd = "needsDetection (selectedImageIds a) (images a)"
  let ?cd = "quotaCooldown a"
  let ?a0 = "a\<lparr>isDetectingPrivacy := True\<rparr>"
  have dnd: "distinct (map imgId ?nd)" using ids by (rule needsDetection_candidates(3))
  from detectLoop_props [OF pre] obtain f where
    mono: "clock w \<le> clock w1"
    and lock: "isDetectingPrivacy a1"
    and f: "images a1 = map f (images a)"
       "\<forall>i. imgId (f i) = imgId i \<and> (imgId i \<notin> imgId ` set pre \<longrightarrow> f i = i)"
    by auto
  from mono idle(2) have open1: "\<not> clock w1 < ?cd" by simp
  have "?nd \<noteq> []" using queue by (auto simp: detectionQueue_def)
  then have len: "length ?nd \<noteq> 0" by simp
  have loop: "detectLoop env ?cd (pre @ c # post) ?a0 w =
      (a1\<lparr>quotaCooldown := clock w2 + 60 * 1000,
          processingMsg := ''Cota de IA atingida. Pausando por 60s...''\<rparr>, w2, True)"
    by (simp only: detectLoop_append pre prod.case if_False detectLoop_quota [OF open1 quota])
  have run: "checkPrivacy env a w =
       (a1\<lparr>quotaCooldown := clock w2 + 60000,
           processingMsg := ''Cota de IA atingida. Pausando por 60s...'',
           isDetectingPrivacy := False\<rparr>, w2)"
    using idle len by (simp add: checkPrivacy_def Let_def queue loop)
  have fetches: "fetched (events w2) = fetched (events w) @ map originalUrl (pre @ [c])"
    using detectLoop_fetched [OF pre] detectFor_props [OF quota(1)] by simp
  have dq: "distinct (map imgId (pre @ c # post))"
    using detectionQueue_distinct [OF dnd, of "viewImageId a"] queue by simp
  have untouched: "\<forall>x\<in>set (c # post). x \<in> set (images a1) \<and> privacyRegions x = None"
  proof
    fix x assume x: "x \<in> set (c # post)"
    then have "x \<in> set (pre @ c # post)" by auto
    then have "x \<in> set (detectionQueue (viewImageId a) ?nd)" by (simp only: queue)
    then have xnd: "x \<in> set ?nd" using detectionQueue_subset by blast
    then have "x \<in> set (images a)" and none: "privacyRegions x = None"
      using needsDetection_candidates(1,2) by blast+
    moreover have "imgId x \<notin> imgId ` set pre" using dq x by auto
    then have "f x = x" using f(2) by simp
    ultimately have "x \<in> set (images a1)" using f(1) by (metis image_eqI set_map)
    with none show "x \<in> set (images a1) \<and> privacyRegions x = None" by simp
  qed
  from run fetches untouched show ?thesis by blast
qed

text \<open>
  C3. For a working set with distinct ids: the queue of a run is the viewed image, if it
  is a candidate, followed by the other candidates in their order, and the candidates in
  their order otherwise; a loop that is not left by \<open>break\<close> fetches the sources of the
  queue in that order. Take a run that starts (no run active, the breaker closed) with
  the queue \<open>pre @ c # post\<close>, in which the loop went through \<open>pre\<close> without a break
  and the detection for \<open>c\<close> then raises the quota error. The run ends at \<open>c\<close>: the
  cooldown is the clock at that moment plus 60000 ms, the lock is released, the sources
  fetched in the run are those of \<open>pre\<close> and of \<open>c\<close> and none of \<open>post\<close>, and \<open>c\<close>
  and every image of \<open>post\<close> are in the working set as they were, with absent region
  state. Any other failure of a candidate, a thrown error that is not the quota error or
  a detection that returns \<open>null\<close>, leaves the state as it is, and the loop goes on with
  the next candidate (after the pause of 4000 ms in the second case).
\<close>

theorem detection_run_order_and_quota_stop:
  assumes ids: "distinct (map imgId (images a))"
  shows
    "(\<forall>p\<in>set (needsDetection (selectedImageIds a) (images a)).
        Some (imgId p) = viewImageId a \<longrightarrow>
        detectionQueue (viewImageId a) (needsDetection (selectedImageIds a) (images a)) =
          p # filter (\<lambda>i. i \<noteq> p) (needsDetection (selectedImageIds a) (images a))) \<and>
     ((\<forall>p\<in>set (needsDetection (selectedImageIds a) (images a)). Some (imgId p) \<noteq> viewImageId a) \<longrightarrow>
        detectionQueue (viewImageId a) (needsDetection (selectedImageIds a) (images a)) =
          needsDetection (selectedImageIds a) (images a)) \<and>
     (\<forall>queue b v b' v'.
        detectLoop env (quotaCooldown a) queue b v = (b', v', False) \<longrightarrow>
        fetched (events v') = fetched (events v) @ map originalUrl queue) \<and>
     (\<forall>pre c post a1 w1 e w2.
        \<not> isDetectingPrivacy a \<and> \<not> clock w < quotaCooldown a \<and>
        detectionQueue (viewImageId a) (needsDetection (selectedImageIds a) (images a)) = pre @ c # post \<and>
        detectLoop env (quotaCooldown a) pre (a\<lparr>isDetectingPrivacy := True\<rparr>) w = (a1, w1, False) \<and>
        detectFor env c w1 = (Inl e, w2) \<and> isGeminiQuotaError e \<longrightarrow>
        checkPrivacy env a w =
          (a1\<lparr>quotaCooldown := clock w2 + 60000,
              processingMsg := ''Cota de IA atingida. Pausando por 60s...'',
              isDetectingPrivacy := False\<rparr>, w2) \<and>
        fetched (events w2) = fetched (events w) @ map originalUrl (pre @ [c]) \<and>
        (\<forall>x\<in>set (c # post). x \<in> set (images a1) \<and> privacyRegions x = None)) \<and>
     (\<forall>img rest b v e' v'.
        \<not> clock v < quotaCooldown a \<and> detectFor env img v = (Inl e', v') \<and> \<not> isGeminiQuotaError e' \<longrightarrow>
        detectLoop env (quotaCooldown a) (img # rest) b v = detectLoop env (quotaCooldown a) rest b v') \<and>
     (\<forall>img rest b v v'.
        \<not> clock v < quotaCooldown a \<and> detectFor env img v = (Inr None, v') \<longrightarrow>
        detectLoop env (quotaCooldown a) (img # rest) b v =
          detectLoop env (quotaCooldown a) rest b (wait 4000 v'))"
proof -
  let ?nd = "needsDetection (selectedImageIds a) (images a)"
  let ?cd = "quotaCooldown a"
  have dnd: "distinct (map imgId ?nd)" using ids by (rule needsDetection_candidates(3))
  have order1: "\<forall>p\<in>set ?nd. Some (imgId p) = viewImageId a \<longrightarrow>
        detectionQueue (viewImageId a) ?nd = p # filter (\<lambda>i. i \<noteq> p) ?nd"
    using detectionQueue_viewed [OF dnd] by blast
  have order2: "(\<forall>p\<in>set ?nd. Some (imgId p) \<noteq> viewImageId a) \<longrightarrow>
        detectionQueue (viewImageId a) ?nd = ?nd"
    using detectionQueue_not_viewed [of ?nd "viewImageId a"] by blast
  have inorder: "\<forall>queue b v b' v'.
        detectLoop env ?cd queue b v = (b', v', False) \<longrightarrow>
        fetched (events v') = fetched (events v) @ map originalUrl queue"
    using detectLoop_fetched by blast
  have stop: "\<forall>pre c post a1 w1 e w2.
        \<not> isDetectingPrivacy a \<and> \<not> clock w < ?cd \<and>
        detectionQueue (viewImageId a) ?nd = pre @ c # post \<and>
        detectLoop env ?cd pre (a\<lparr>isDetectingPrivacy := True\<rparr>) w = (a1, w1, False) \<and>
        detectFor env c w1 = (Inl e, w2) \<and> isGeminiQuotaError e \<longrightarrow>
        checkPrivacy env a w =
          (a1\<lparr>quotaCooldown := clock w2 + 60000,
              processingMsg := ''Cota de IA atingida. Pausando por 60s...'',
              isDetectingPrivacy := False\<rparr>, w2) \<and>
        fetched (events w2) = fetched (events w) @ map originalUrl (pre @ [c]) \<and>
        (\<forall>x\<in>set (c # post). x \<in> set (images a1) \<and> privacyRegions x = None)"
  proof (intro allI impI)
    fix pre c post a1 w1 e w2
    assume h: "\<not> isDetectingPrivacy a \<and> \<not> clock w < ?cd \<and>
        detectionQueue (viewImageId a) ?nd = pre @ c # post \<and>
        detectLoop env ?cd pre (a\<lparr>isDetectingPrivacy := True\<rparr>) w = (a1, w1, False) \<and>
        detectFor env c w1 = (Inl e, w2) \<and> isGeminiQuotaError e"
    then have 1: "\<not> isDetectingPrivacy a" and 2: "\<not> clock w < ?cd"
      and 3: "detectionQueue (viewImageId a) ?nd = pre @ c # post"
      and 4: "detectLoop env ?cd pre (a\<lparr>isDetectingPrivacy := True\<rparr>) w = (a1, w1, False)"
      and 5: "detectFor env c w1 = (Inl e, w2)" and 6: "isGeminiQuotaError e"
      by simp_all
    from quota_error_ends_run [OF ids 1 2 3 4 5 6]
    show "checkPrivacy env a w =
          (a1\<lparr>quotaCooldown := clock w2 + 60000,
              processingMsg := ''Cota de IA atingida. Pausando por 60s...'',
              isDetectingPrivacy := False\<rparr>, w2) \<and>
        fetched (events w2) = fetched (events w) @ map originalUrl (pre @ [c]) \<and>
        (\<forall>x\<in>set (c # post). x \<in> set (images a1) \<and> privacyRegions x = None)"
      by blast
  qed
  have cont1: "\<forall>img rest b v e' v'.
        \<not> clock v < ?cd \<and> detectFor env img v = (Inl e', v') \<and> \<not> isGeminiQuotaError e' \<longrightarrow>
        detectLoop env ?cd (img # rest) b v = detectLoop env ?cd rest b v'"
    by (simp add: detectLoop_other_failure)
  have cont2: "\<forall>img rest b v v'.
        \<not> clock v < ?cd \<and> detectFor env img v = (Inr None, v') \<longrightarrow>
        detectLoop env ?cd (img # rest) b v = detectLoop env ?cd rest b (wait 4000 v')"
    by (simp add: detectLoop_null)
  from order1 order2 inorder stop cont1 cont2 show ?thesis by blast
qed

lemmas run_defs = detectFor_def invoke_def detectPrivacyObjects_def retryWithBackoff.simps
  env3_def wait_def isRateLimit_def isGeminiQuotaError_def quota429_def storeRegions_def
  exImage_def world0_def plainError_def messageIncludes_def

theorem detection_run_order_and_quota_stop_witness:
  "quotaCooldown (fst (checkPrivacy env3 app3 world0)) = 70000 \<and>
   fetched (events (snd (checkPrivacy env3 app3 world0))) = [''blob:b'', ''blob:a''] \<and>
   exImage ''a'' blurOn None \<in> set (images (fst (checkPrivacy env3 app3 world0))) \<and>
   exImage ''c'' blurOn None \<in> set (images (fst (checkPrivacy env3 app3 world0))) \<and>
   detectLoop env3 0 [exImage ''x'' blurOn None, exImage ''c'' blurOn None] app3 world0 =
     detectLoop env3 0 [exImage ''c'' blurOn None] app3 (world0\<lparr>events := [Fetch ''blob:x'']\<rparr>)"
proof -
  let ?a = "exImage ''a'' blurOn None" and ?b = "exImage ''b'' blurOn None"
    and ?c = "exImage ''c'' blurOn None"
  let ?a1 = "app3\<lparr>images := [?a, ?b\<lparr>privacyRegions := Some [sampleBox]\<rparr>, ?c],
                  isDetectingPrivacy := True\<rparr>"
  let ?w1 = "\<lparr>clock = 4000, events = [Fetch ''blob:b'', Call, Wait 4000], remote = 1\<rparr> :: nat world"
  let ?w2 = "\<lparr>clock = 10000,
              events = [Fetch ''blob:b'', Call, Wait 4000, Fetch ''blob:a'', Call, Wait 2000, Call,
                        Wait 4000, Call],
              remote = 4\<rparr> :: nat world"
  have ids: "distinct (map imgId (images app3))" by (simp add: app3_def exImage_def)
  have idle: "\<not> isDetectingPrivacy app3" "\<not> clock world0 < quotaCooldown app3"
    by (simp_all add: app3_def world0_def)
  have queue: "detectionQueue (viewImageId app3) (needsDetection (selectedImageIds app3) (images app3))
                 = [?b] @ ?a # [?c]"
    by (simp add: app3_def detectionQueue_def needsDetection_def exImage_def blurOn_def)
  have pre: "detectLoop env3 (quotaCooldown app3) [?b] (app3\<lparr>isDetectingPrivacy := True\<rparr>) world0
               = (?a1, ?w1, False)"
    by (simp add: run_defs app3_def)
  have quota: "detectFor env3 ?a ?w1 = (Inl GeminiQuotaError, ?w2)" "isGeminiQuotaError GeminiQuotaError"
    by (simp_all add: run_defs)
  note th = detection_run_order_and_quota_stop [OF ids, of env3 world0]
  have scenario: "\<not> isDetectingPrivacy app3 \<and> \<not> clock world0 < quotaCooldown app3 \<and>
      detectionQueue (viewImageId app3) (needsDetection (selectedImageIds app3) (images app3))
        = [?b] @ ?a # [?c] \<and>
      detectLoop env3 (quotaCooldown app3) [?b] (app3\<lparr>isDetectingPrivacy := True\<rparr>) world0
        = (?a1, ?w1, False) \<and>
      detectFor env3 ?a ?w1 = (Inl GeminiQuotaError, ?w2) \<and> isGeminiQuotaError GeminiQuotaError"
    using idle queue pre quota by blast
  note stop = th [THEN conjunct2, THEN conjunct2, THEN conjunct2, THEN conjunct1, rule_format,
      OF scenario]
  from stop [THEN conjunct1]
  have run: "checkPrivacy env3 app3 world0 =
       (?a1\<lparr>quotaCooldown := clock ?w2 + 60000,
            processingMsg := ''Cota de IA atingida. Pausando por 60s...'',
            isDetectingPrivacy := False\<rparr>, ?w2)" .
  from stop [THEN conjunct2, THEN conjunct1]
  have fetches: "fetched (events ?w2) = fetched (events world0) @ map originalUrl ([?b] @ [?a])" .
  from stop [THEN conjunct2, THEN conjunct2]
  have untouched: "\<forall>x\<in>set (?a # [?c]). x \<in> set (images ?a1) \<and> privacyRegions x = None" .
  have other: "\<not> clock world0 < quotaCooldown app3 \<and>
      detectFor env3 (exImage ''x'' blurOn None) world0 =
        (Inl (plainError ''Failed to fetch''), world0\<lparr>events := [Fetch ''blob:x'']\<rparr>) \<and>
      \<not> isGeminiQuotaError (plainError ''Failed to fetch'')"
    by (simp add: run_defs app3_def)
  from th [THEN conjunct2, THEN conjunct2, THEN conjunct2, THEN conjunct2, THEN conjunct1,
      rule_format, OF other, of "[exImage ''c'' blurOn None]" app3]
  have continue: "detectLoop env3 (quotaCooldown app3) [exImage ''x'' blurOn None, exImage ''c'' blurOn None]
       app3 world0 =
     detectLoop env3 (quotaCooldown app3) [exImage ''c'' blurOn None] app3
       (world0\<lparr>events := [Fetch ''blob:x'']\<rparr>)" .
  have cd0: "quotaCooldown app3 = 0" by (simp add: app3_def)
  from run fetches untouched continue [unfolded cd0] show ?thesis
    by (simp add: world0_def exImage_def)
qed

section \<open>Detection without an API key\<close>

lemma detectFor_no_key:
  "\<not> apiKey env \<Longrightarrow> fetchBase64 env (originalUrl img) (remote w) = (Inr b, r') \<Longrightarrow>
     detectFor env img w =
       (Inr (Some []), w\<lparr>events := events w @ [Fetch (originalUrl img)], remote := r'\<rparr>)"
  by (simp add: detectFor_def invoke_def detectPrivacyObjects_def)

lemma detectLoop_no_key:
  assumes nokey: "\<not> apiKey env"
    and fetch: "\<forall>url r. \<exists>b r'. fetchBase64 env url r = (Inr b, r')"
  shows "\<not> clock w < cd \<Longrightarrow>
     \<exists>w'. detectLoop env cd queue a w =
            (a\<lparr>images := fold (\<lambda>c. storeRegions (imgId c) []) queue (images a)\<rparr>, w', False) \<and>
          events w' = events w @ concat (map (\<lambda>c. [Fetch (originalUrl c), Wait 4000]) queue)"
proof (induction queue arbitrary: a w)
  case Nil
  then show ?case by simp
next
  case (Cons x queue)
  from fetch obtain b r' where fb: "fetchBase64 env (originalUrl x) (remote w) = (Inr b, r')" by blast
  let ?w0 = "w\<lparr>events := events w @ [Fetch (originalUrl x)], remote := r'\<rparr>"
  let ?a1 = "a\<lparr>images := storeRegions (imgId x) [] (images a)\<rparr>"
  note d = detectFor_no_key [OF nokey fb]
  have step: "detectLoop env cd (x # queue) a w = detectLoop env cd queue ?a1 (wait 4000 ?w0)"
    using Cons.prems d by (rule detectLoop_boxes)
  have "\<not> clock (wait 4000 ?w0) < cd" using Cons.prems by (simp add: wait_def)
  from Cons.IH [OF this, of ?a1] obtain w' where
    run: "detectLoop env cd queue ?a1 (wait 4000 ?w0) =
            (?a1\<lparr>images := fold (\<lambda>c. storeRegions (imgId c) []) queue (images ?a1)\<rparr>, w', False)"
    and ev: "events w' = events (wait 4000 ?w0) @ concat (map (\<lambda>c. [Fetch (originalUrl c), Wait 4000]) queue)"
    by blast
  have "detectLoop env cd (x # queue) a w =
      (a\<lparr>images := fold (\<lambda>c. storeRegions (imgId c) []) (x # queue) (images a)\<rparr>, w', False)"
    using step run by simp
  moreover have "events w' = events w @ concat (map (\<lambda>c. [Fetch (originalUrl c), Wait 4000]) (x # queue))"
    using ev by (simp add: wait_def)
  ultimately show ?case by blast
qed

lemma fold_storeRegions_empty:
  "fold (\<lambda>c. storeRegions (imgId c) []) queue imgs =
     map (\<lambda>i. if imgId i \<in> imgId ` set queue then i\<lparr>privacyRegions := Some []\<rparr> else i) imgs"
proof (induction queue arbitrary: imgs)
  case Nil
  then show ?case by simp
next
  case (Cons x queue)
  have "fold (\<lambda>c. storeRegions (imgId c) []) (x # queue) imgs =
        fold (\<lambda>c. storeRegions (imgId c) []) queue (storeRegions (imgId x) [] imgs)"
    by simp
  also have "\<dots> =
        map (\<lambda>i. if imgId i \<in> imgId ` set queue then i\<lparr>privacyRegions := Some []\<rparr> else i)
          (storeRegions (imgId x) [] imgs)"
    by (rule Cons.IH)
  also have "\<dots> =
        map (\<lambda>i. if imgId i \<in> imgId ` set (x # queue) then i\<lparr>privacyRegions := Some []\<rparr> else i) imgs"
    by (auto simp: storeRegions_def)
  finally show ?case .
qed

lemma detectionQueue_ids: "imgId ` set (detectionQueue view nd) = imgId ` set nd"
proof (cases "find (\<lambda>img. Some (imgId img) = view) nd")
  case None
  then show ?thesis by (simp add: detectionQueue_def)
next
  case (Some prio)
  then have p: "prio \<in> set nd" "Some (imgId prio) = view" by (auto simp: find_Some_iff)
  have "set (detectionQueue view nd) = insert prio {i \<in> set nd. Some (imgId i) \<noteq> view}"
    using Some by (auto simp: detectionQueue_def)
  then show ?thesis using p by (auto simp: image_iff)
qed


lemma needsDetection_none:
  "(\<And>i. i \<in> set imgs \<Longrightarrow>
      \<not> (imgId (g i) \<in> sel \<and> privacyBlur (adjustments (g i)) \<and> privacyRegions (g i) = None)) \<Longrightarrow>
     needsDetection sel (map g imgs) = []"
  by (auto simp: needsDetection_def filter_empty_conv)

text \<open>
  C10. Without an API key \<open>detectPrivacyObjects\<close> returns the empty list and leaves the
  world as it is (no call, no timer). A run that starts then, every source being
  fetchable, stores the empty set for every image that has the id of a candidate and
  changes no other image; each candidate is in the working set with the empty set as its
  region state; all that happened outside is, per image of the queue, one fetch and the
  pause of 4000 ms, with no call of the remote model; with the same selection no image
  is a candidate any more, and a candidate with the empty set stored is a candidate of no
  selection and no working set.
\<close>

theorem no_key_stores_scan_clean:
  assumes nokey: "\<not> apiKey env"
    and fetch: "\<forall>url r. \<exists>b r'. fetchBase64 env url r = (Inr b, r')"
    and idle: "\<not> isDetectingPrivacy a" "\<not> clock w < quotaCooldown a"
  shows
    "detectPrivacyObjects env base64 v = (Inr (Some []), v) \<and>
     images (fst (checkPrivacy env a w)) =
       map (\<lambda>i. if imgId i \<in> imgId ` set (needsDetection (selectedImageIds a) (images a))
                then i\<lparr>privacyRegions := Some []\<rparr> else i) (images a) \<and>
     (\<forall>c\<in>set (needsDetection (selectedImageIds a) (images a)).
        c\<lparr>privacyRegions := Some []\<rparr> \<in> set (images (fst (checkPrivacy env a w)))) \<and>
     events (snd (checkPrivacy env a w)) =
       events w @ concat (map (\<lambda>c. [Fetch (originalUrl c), Wait 4000])
         (detectionQueue (viewImageId a) (needsDetection (selectedImageIds a) (images a)))) \<and>
     needsDetection (selectedImageIds a) (images (fst (checkPrivacy env a w))) = [] \<and>
     (\<forall>c\<in>set (needsDetection (selectedImageIds a) (images a)).
        \<forall>sel' imgs'. c\<lparr>privacyRegions := Some []\<rparr> \<notin> set (needsDetection sel' imgs'))"
proof -
  let ?nd = "needsDetection (selectedImageIds a) (images a)"
  let ?queue = "detectionQueue (viewImageId a) ?nd"
  let ?mark = "\<lambda>i. if imgId i \<in> imgId ` set ?nd then i\<lparr>privacyRegions := Some []\<rparr> else i"
  have direct: "detectPrivacyObjects env base64 v = (Inr (Some []), v)"
    using nokey by (simp add: detectPrivacyObjects_def)
  have run: "images (fst (checkPrivacy env a w)) = map ?mark (images a) \<and>
     events (snd (checkPrivacy env a w)) =
       events w @ concat (map (\<lambda>c. [Fetch (originalUrl c), Wait 4000]) ?queue)"
  proof (cases "?nd = []")
    case True
    then show ?thesis using idle by (simp add: checkPrivacy_def detectionQueue_def)
  next
    case False
    from detectLoop_no_key [OF nokey fetch idle(2), of ?queue "a\<lparr>isDetectingPrivacy := True\<rparr>"]
    obtain w' where
      loop: "detectLoop env (quotaCooldown a) ?queue (a\<lparr>isDetectingPrivacy := True\<rparr>) w =
         (a\<lparr>isDetectingPrivacy := True,
            images := fold (\<lambda>c. storeRegions (imgId c) []) ?queue (images a)\<rparr>, w', False)"
      and ev: "events w' = events w @ concat (map (\<lambda>c. [Fetch (originalUrl c), Wait 4000]) ?queue)"
      by auto
    have "checkPrivacy env a w =
        (a\<lparr>isDetectingPrivacy := True,
            images := fold (\<lambda>c. storeRegions (imgId c) []) ?queue (images a),
            isDetectingPrivacy := False\<rparr>, w')"
      using idle False by (simp add: checkPrivacy_def Let_def loop)
    then show ?thesis
      using ev by (simp add: fold_storeRegions_empty detectionQueue_ids)
  qed
  have stored: "\<forall>c\<in>set ?nd. c\<lparr>privacyRegions := Some []\<rparr> \<in> set (images (fst (checkPrivacy env a w)))"
  proof
    fix c assume c: "c \<in> set ?nd"
    then have "c \<in> set (images a)" using needsDetection_candidates(1) by blast
    then have "?mark c \<in> ?mark ` set (images a)" by (rule imageI)
    then have "?mark c \<in> set (map ?mark (images a))" by (simp only: set_map)
    moreover have "?mark c = c\<lparr>privacyRegions := Some []\<rparr>" using c by simp
    ultimately show "c\<lparr>privacyRegions := Some []\<rparr> \<in> set (images (fst (checkPrivacy env a w)))"
      using run by simp
  qed
  have clean: "needsDetection (selectedImageIds a) (map ?mark (images a)) = []"
  proof -
    have "\<not> (imgId (?mark i) \<in> selectedImageIds a \<and> privacyBlur (adjustments (?mark i)) \<and>
              privacyRegions (?mark i) = None)" if "i \<in> set (images a)" for i
    proof (cases "imgId i \<in> imgId ` set ?nd")
      case True
      then show ?thesis by simp
    next
      case False
      then have "i \<notin> set ?nd" by blast
      with that False show ?thesis by (simp add: needsDetection_def)
    qed
    then show ?thesis by (rule needsDetection_none)
  qed
  have never: "\<forall>c\<in>set ?nd. \<forall>sel' imgs'. c\<lparr>privacyRegions := Some []\<rparr> \<notin> set (needsDetection sel' imgs')"
    by (simp add: needsDetection_def)
  from direct run stored clean never show ?thesis by simp
qed

theorem no_key_stores_scan_clean_witness:
  "detectPrivacyObjects envNoKey ''blob:a'' world0 = (Inr (Some []), world0) \<and>
   images (fst (checkPrivacy envNoKey app3 world0)) =
     [exImage ''a'' blurOn (Some []), exImage ''b'' blurOn (Some []), exImage ''c'' blurOn (Some [])] \<and>
   events (snd (checkPrivacy envNoKey app3 world0)) =
     [Fetch ''blob:b'', Wait 4000, Fetch ''blob:a'', Wait 4000, Fetch ''blob:c'', Wait 4000] \<and>
   needsDetection (selectedImageIds app3) (images (fst (checkPrivacy envNoKey app3 world0))) = []"
proof -
  have nokey: "\<not> apiKey envNoKey" by (simp add: envNoKey_def)
  have fetch: "\<forall>url r. \<exists>b r'. fetchBase64 envNoKey url r = (Inr b, r')" by (simp add: envNoKey_def)
  have idle: "\<not> isDetectingPrivacy app3" "\<not> clock world0 < quotaCooldown app3"
    by (simp_all add: app3_def world0_def)
  have nd: "needsDetection (selectedImageIds app3) (images app3) =
      [exImage ''a'' blurOn None, exImage ''b'' blurOn None, exImage ''c'' blurOn None]"
    by (simp add: app3_def needsDetection_def exImage_def blurOn_def)
  have queue: "detectionQueue (viewImageId app3)
        [exImage ''a'' blurOn None, exImage ''b'' blurOn None, exImage ''c'' blurOn None] =
      [exImage ''b'' blurOn None, exImage ''a'' blurOn None, exImage ''c'' blurOn None]"
    by (simp add: app3_def detectionQueue_def exImage_def)
  note th = no_key_stores_scan_clean [OF nokey fetch idle, of "''blob:a''" world0, unfolded nd queue]
  have imgs: "images app3 =
      [exImage ''a'' blurOn None, exImage ''b'' blurOn None, exImage ''c'' blurOn None]"
    by (simp add: app3_def)
  from th [THEN conjunct1]
  have 1: "detectPrivacyObjects envNoKey ''blob:a'' world0 = (Inr (Some []), world0)" .
  from th [THEN conjunct2, THEN conjunct1]
  have 2: "images (fst (checkPrivacy envNoKey app3 world0)) =
     [exImage ''a'' blurOn (Some []), exImage ''b'' blurOn (Some []), exImage ''c'' blurOn (Some [])]"
    by (simp add: imgs exImage_def)
  from th [THEN conjunct2, THEN conjunct2, THEN conjunct2, THEN conjunct1]
  have 3: "events (snd (checkPrivacy envNoKey app3 world0)) =
     [Fetch ''blob:b'', Wait 4000, Fetch ''blob:a'', Wait 4000, Fetch ''blob:c'', Wait 4000]"
    by (simp add: exImage_def world0_def)
  from th [THEN conjunct2, THEN conjunct2, THEN conjunct2, THEN conjunct2, THEN conjunct1]
  have 4: "needsDetection (selectedImageIds app3) (images (fst (checkPrivacy envNoKey app3 world0))) = []" .
  from 1 2 3 4 show ?thesis by blast
qed

end
